theory Spec2Isabelle
  imports Main "HOL-Library.AList" "HOL-Library.Sublist"
begin

section \<open>Data model of the runtime controller\<close>

text \<open>
  Go strings are byte sequences, modelled as \<open>string\<close> (a list of 8-bit characters).
  \<open>type Language string\<close> is a string as well.  A Go pointer that may be \<open>nil\<close> is an
  \<open>option\<close>; a Go map is an association list with unique keys (a store replaces the
  value of an existing key), whose list order stands for one iteration order of the map.
  A panic of the Go runtime is a value of \<open>goPanic\<close>.
\<close>

type_synonym Language = string

datatype goPanic = NilPointerDereference | IndexOutOfRange

text \<open>\<open>jupyterKernel\<close> of ctrl.go; the mutex and the HTTP client carry no data of their own.\<close>

record jupyterKernel =
  kernelID :: string
  language :: Language

text \<open>\<open>commandKernel\<close> of ctrl.go; times are nanoseconds since the epoch.\<close>

record commandKernel =
  pid :: int
  stdoutPath :: string
  stderrPath :: string
  startedAt :: nat
  finishedAt :: "nat option"
  exitCode :: "int option"
  errMsg :: string
  running :: bool
  isBackground :: bool
  content :: string

record Controller =
  jupyterClientMap :: "(string \<times> jupyterKernel option) list"
  defaultLanguageJupyterSessions :: "(Language \<times> string) list"
  commandClientMap :: "(string \<times> commandKernel option) list"

record CodeContext =
  ID :: string
  Language :: Language

definition NewController :: Controller where
  "NewController =
     \<lparr>jupyterClientMap = [], defaultLanguageJupyterSessions = [], commandClientMap = []\<rparr>"

text \<open>Reading a Go map of pointers at a key: \<open>nil\<close> when the key is absent.\<close>

definition ptrAt :: "('k \<times> 'v option) list \<Rightarrow> 'k \<Rightarrow> 'v option" where
  "ptrAt m k = (case map_of m k of None \<Rightarrow> None | Some p \<Rightarrow> p)"

subsection \<open>Kernel contexts (context.go, ctrl.go)\<close>

definition getJupyterKernel :: "Controller \<Rightarrow> string \<Rightarrow> jupyterKernel option" where
  "getJupyterKernel c sessionID = ptrAt (jupyterClientMap c) sessionID"

definition storeJupyterKernel :: "string \<Rightarrow> jupyterKernel \<Rightarrow> Controller \<Rightarrow> Controller" where
  "storeJupyterKernel sessionID kern c =
     c\<lparr>jupyterClientMap := AList.update sessionID (Some kern) (jupyterClientMap c)\<rparr>"

text \<open>
  \<open>GetContext\<close> reads \<open>kernel.language\<close> without a nil check: on a nil kernel the Go
  runtime panics.
\<close>

definition GetContext :: "Controller \<Rightarrow> string \<Rightarrow> goPanic + CodeContext" where
  "GetContext c session =
     (case getJupyterKernel c session of
        None \<Rightarrow> Inl NilPointerDereference
      | Some kern \<Rightarrow> Inr \<lparr>ID = session, Language = language kern\<rparr>)"

subsection \<open>Seeking in a file\<close>

text \<open>
  \<open>file.Seek(offset, 0)\<close>: the operating system accepts the offsets from 0 to
  \<open>maxOffset\<close>, the largest file offset of the file system that holds the file (a
  parameter: it differs between file systems and is below \<open>2 ^ 63\<close>); any other offset
  makes the seek fail and leaves the file offset where it was, at 0 after \<open>os.Open\<close>.
\<close>

definition seekOK :: "int \<Rightarrow> int \<Rightarrow> bool" where
  "seekOK maxOffset offset \<longleftrightarrow> 0 \<le> offset \<and> offset \<le> maxOffset"

text \<open>
  The largest offset of the file system of the examples, \<open>2 ^ 44 - 1\<close>.
\<close>

definition demoMaxOffset :: int where
  "demoMaxOffset = 17592186044415"

subsection \<open>Command contexts (command_status.go and the command runners of both builds)\<close>

definition getCommandKernel :: "Controller \<Rightarrow> string \<Rightarrow> commandKernel option" where
  "getCommandKernel c sessionID = ptrAt (commandClientMap c) sessionID"

definition storeCommandKernel :: "string \<Rightarrow> commandKernel \<Rightarrow> Controller \<Rightarrow> Controller" where
  "storeCommandKernel sessionID kern c =
     c\<lparr>commandClientMap := AList.update sessionID (Some kern) (commandClientMap c)\<rparr>"

text \<open>\<open>commandSnapshot\<close> copies the struct under the read lock; a value here.\<close>

definition commandSnapshot :: "Controller \<Rightarrow> string \<Rightarrow> commandKernel option" where
  "commandSnapshot c session =
     (case map_of (commandClientMap c) session of
        None \<Rightarrow> None
      | Some None \<Rightarrow> None
      | Some (Some kern) \<Rightarrow> Some kern)"

text \<open>
  \<open>markCommandFinished\<close> writes the four fields through the pointer held in the map, in
  one critical section of the write lock; \<open>now\<close> is the \<open>time.Now()\<close> it took on entry.
\<close>

definition markCommandFinished ::
  "string \<Rightarrow> int \<Rightarrow> string \<Rightarrow> nat \<Rightarrow> Controller \<Rightarrow> Controller" where
  "markCommandFinished session code msg now c =
     (case map_of (commandClientMap c) session of
        None \<Rightarrow> c
      | Some None \<Rightarrow> c
      | Some (Some kern) \<Rightarrow>
          c\<lparr>commandClientMap :=
               AList.update session
                 (Some (kern\<lparr>exitCode := Some code, errMsg := msg, running := False,
                              finishedAt := Some now\<rparr>))
                 (commandClientMap c)\<rparr>)"

text \<open>
  Log file names; \<open>tmp\<close> is \<open>os.TempDir()\<close>.  \<open>filepath.Join\<close> puts one separator
  between its arguments and cleans the result; the names below are its result for a
  \<open>tmp\<close> that is a clean path without a trailing separator and a session id without
  separators or dots-only elements, as the generated ids are.  No property below depends
  on the form of these names.
\<close>

definition stdoutFileName :: "string \<Rightarrow> string \<Rightarrow> string" where
  "stdoutFileName tmp session = tmp @ ''/'' @ session @ ''.stdout''"

definition stderrFileName :: "string \<Rightarrow> string \<Rightarrow> string" where
  "stderrFileName tmp session = tmp @ ''/'' @ session @ ''.stderr''"

definition combinedOutputFileName :: "string \<Rightarrow> string \<Rightarrow> string" where
  "combinedOutputFileName tmp session = tmp @ ''/'' @ session @ ''.output''"

text \<open>
  What the operating system does with one spawned command: whether \<open>cmd.Start\<close> fails,
  the child's pid, how \<open>cmd.Wait\<close> returns, and the clock readings.
\<close>

datatype waitResult =
    WaitOK
  | WaitExitError int string
  | WaitOtherError string

record cmdRun =
  startErr :: "string option"
  childPid :: int
  waitRes :: waitResult
  startAt :: nat
  endAt :: nat

text \<open>
  Every access to the registry is one critical section of the controller's lock.  A
  command runner is modelled by the sequence of critical sections it performs on the
  command map, in program order; everything between them (spawning, waiting, tailing,
  hooks) leaves the registry alone.  A runner that cannot create its log files returns
  an error before it touches the registry; the runners below are past that point.
  The repository has two builds of the runners, one for Windows and one for every other
  system (\<open>//go:build !windows\<close>), called the POSIX build here.
\<close>

datatype regStep =
    Store string commandKernel
  | MarkFinished string int string nat

fun applyStep :: "regStep \<Rightarrow> Controller \<Rightarrow> Controller" where
  "applyStep (Store session kern) c = storeCommandKernel session kern c"
| "applyStep (MarkFinished session code msg now) c = markCommandFinished session code msg now c"

text \<open>
  The exit bookkeeping after \<open>cmd.Wait\<close>, the same in the POSIX runners and in the
  Windows background runner: exit code 0 and no message when the wait succeeds, the exit
  code of an \<open>exec.ExitError\<close>, and 1 for any other error, with the error's text.
\<close>

definition runCommandExit :: "string \<Rightarrow> cmdRun \<Rightarrow> regStep" where
  "runCommandExit session r =
     (case waitRes r of
        WaitOK \<Rightarrow> MarkFinished session 0 [] (endAt r)
      | WaitExitError code msg \<Rightarrow> MarkFinished session code msg (endAt r)
      | WaitOtherError msg \<Rightarrow> MarkFinished session 1 msg (endAt r))"

text \<open>
  \<open>runCommand\<close> (foreground, POSIX build): nothing is registered when the start fails; otherwise the
  context is stored with \<open>running = true\<close> and marked finished after the wait.
\<close>

definition runCommand :: "string \<Rightarrow> string \<Rightarrow> string \<Rightarrow> cmdRun \<Rightarrow> regStep list" where
  "runCommand tmp session code r =
     (case startErr r of
        Some err \<Rightarrow> []
      | None \<Rightarrow>
          [Store session
             \<lparr>pid = childPid r, stdoutPath = stdoutFileName tmp session,
              stderrPath = stderrFileName tmp session, startedAt = startAt r,
              finishedAt = None, exitCode = None, errMsg = [], running = True,
              isBackground = False, content = code\<rparr>,
           runCommandExit session r])"

text \<open>
  \<open>runBackgroundCommand\<close> (POSIX build): the goroutine builds the kernel with \<open>pid = -1\<close>; when the start
  fails it sets \<open>running = false\<close>, stores the kernel, and only then calls
  \<open>markCommandFinished\<close> with exit code 255, in a second critical section.
\<close>

definition runBackgroundCommand :: "string \<Rightarrow> string \<Rightarrow> string \<Rightarrow> cmdRun \<Rightarrow> regStep list" where
  "runBackgroundCommand tmp session code r =
     (let kern = \<lparr>pid = - 1, stdoutPath = combinedOutputFileName tmp session,
                  stderrPath = combinedOutputFileName tmp session, startedAt = startAt r,
                  finishedAt = None, exitCode = None, errMsg = [], running = True,
                  isBackground = True, content = code\<rparr>
      in case startErr r of
           Some err \<Rightarrow>
             [Store session (kern\<lparr>running := False\<rparr>),
              MarkFinished session 255 err (endAt r)]
         | None \<Rightarrow>
             [Store session (kern\<lparr>running := True, pid := childPid r\<rparr>),
              runCommandExit session r])"

text \<open>
  \<open>runCommand\<close> of the Windows build: nothing is registered when the start fails;
  otherwise the context is stored with only \<open>pid\<close>, \<open>content\<close> and \<open>isBackground\<close> set,
  so \<open>running\<close> is false, the paths are empty and \<open>startedAt\<close> is the zero time (0 here),
  and \<open>markCommandFinished\<close> is never called.
\<close>

definition runCommandWindows :: "string \<Rightarrow> string \<Rightarrow> cmdRun \<Rightarrow> regStep list" where
  "runCommandWindows session code r =
     (case startErr r of
        Some err \<Rightarrow> []
      | None \<Rightarrow>
          [Store session
             \<lparr>pid = childPid r, stdoutPath = [], stderrPath = [], startedAt = 0,
              finishedAt = None, exitCode = None, errMsg = [], running = False,
              isBackground = False, content = code\<rparr>])"

text \<open>
  \<open>runBackgroundCommand\<close> of the Windows build: nothing is registered when the start
  fails; otherwise the context is stored with \<open>running = true\<close> and marked finished after
  the wait.  The path separator of \<open>filepath.Join\<close> is the backslash there.
\<close>

definition combinedOutputFileNameWindows :: "string \<Rightarrow> string \<Rightarrow> string" where
  "combinedOutputFileNameWindows tmp session = tmp @ [CHR 0x5C] @ session @ ''.output''"

definition runBackgroundCommandWindows ::
  "string \<Rightarrow> string \<Rightarrow> string \<Rightarrow> cmdRun \<Rightarrow> regStep list" where
  "runBackgroundCommandWindows tmp session code r =
     (case startErr r of
        Some err \<Rightarrow> []
      | None \<Rightarrow>
          [Store session
             \<lparr>pid = childPid r, stdoutPath = combinedOutputFileNameWindows tmp session,
              stderrPath = combinedOutputFileNameWindows tmp session, startedAt = startAt r,
              finishedAt = None, exitCode = None, errMsg = [], running = True,
              isBackground = True, content = code\<rparr>,
           runCommandExit session r])"

text \<open>The runners of a build.\<close>

datatype build = POSIX | Windows

definition foregroundRunner :: "build \<Rightarrow> string \<Rightarrow> string \<Rightarrow> string \<Rightarrow> cmdRun \<Rightarrow> regStep list" where
  "foregroundRunner b tmp session code r =
     (case b of POSIX \<Rightarrow> runCommand tmp session code r
              | Windows \<Rightarrow> runCommandWindows session code r)"

definition backgroundRunner :: "build \<Rightarrow> string \<Rightarrow> string \<Rightarrow> string \<Rightarrow> cmdRun \<Rightarrow> regStep list" where
  "backgroundRunner b tmp session code r =
     (case b of POSIX \<Rightarrow> runBackgroundCommand tmp session code r
              | Windows \<Rightarrow> runBackgroundCommandWindows tmp session code r)"

text \<open>
  The interleaving semantics: a state is the controller together with the remaining
  critical sections of every command goroutine.  A request spawns a runner of the build;
  any goroutine may perform its next critical section.  The flag says whether background
  commands whose start fails are part of the executions considered.
\<close>

inductive reachable :: "build \<Rightarrow> bool \<Rightarrow> Controller \<times> regStep list list \<Rightarrow> bool"
  for b failing where
  init: "reachable b failing (NewController, [])"
| foreground:
    "reachable b failing (c, ths) \<Longrightarrow>
     reachable b failing (c, ths @ [foregroundRunner b tmp session code r])"
| background:
    "reachable b failing (c, ths) \<Longrightarrow> failing \<or> startErr r = None \<Longrightarrow>
     reachable b failing (c, ths @ [backgroundRunner b tmp session code r])"
| critical:
    "reachable b failing (c, ths) \<Longrightarrow> i < length ths \<Longrightarrow> ths ! i = s # rest \<Longrightarrow>
     reachable b failing (applyStep s c, ths[i := rest])"

text \<open>
  The two states of the claim, the third one the POSIX background runner passes through,
  and the one in which the Windows foreground runner leaves its context.
\<close>

definition isRunning :: "commandKernel \<Rightarrow> bool" where
  "isRunning k \<longleftrightarrow> running k \<and> exitCode k = None \<and> finishedAt k = None"

definition isFinished :: "commandKernel \<Rightarrow> bool" where
  "isFinished k \<longleftrightarrow> \<not> running k \<and> exitCode k \<noteq> None \<and> finishedAt k \<noteq> None"

definition isStartFailed :: "commandKernel \<Rightarrow> bool" where
  "isStartFailed k \<longleftrightarrow>
     \<not> running k \<and> exitCode k = None \<and> finishedAt k = None \<and> isBackground k \<and> pid k = - 1"

definition isUnmarked :: "commandKernel \<Rightarrow> bool" where
  "isUnmarked k \<longleftrightarrow>
     \<not> running k \<and> exitCode k = None \<and> finishedAt k = None \<and> \<not> isBackground k"

text \<open>The invariant of the registry, by build and kind of execution.\<close>

definition stateOK :: "build \<Rightarrow> bool \<Rightarrow> commandKernel \<Rightarrow> bool" where
  "stateOK b failing k \<longleftrightarrow>
     isRunning k \<or> isFinished k \<or> (b = POSIX \<and> failing \<and> isStartFailed k) \<or>
     (b = Windows \<and> isUnmarked k)"

definition registryOK :: "build \<Rightarrow> bool \<Rightarrow> Controller \<Rightarrow> bool" where
  "registryOK b failing c \<longleftrightarrow>
     (\<forall>(session, p) \<in> set (commandClientMap c).
        case p of None \<Rightarrow> True | Some k \<Rightarrow> stateOK b failing k)"

definition stepOK :: "build \<Rightarrow> bool \<Rightarrow> regStep \<Rightarrow> bool" where
  "stepOK b failing s \<longleftrightarrow>
     (case s of Store session k \<Rightarrow> stateOK b failing k
              | MarkFinished session code msg now \<Rightarrow> True)"

subsection \<open>The file-tail streamer (\<open>readFromPos\<close>, \<open>tailStdPipe\<close>)\<close>

definition isTerminator :: "char \<Rightarrow> bool" where
  "isTerminator b \<longleftrightarrow> b = CHR 0x0A \<or> b = CHR 0x0D"

text \<open>
  Go's \<open>int64\<close> arithmetic wraps around: \<open>int64 x\<close> is the value a 64-bit signed
  variable holds after a computation whose mathematical result is \<open>x\<close>.
\<close>

definition int64 :: "int \<Rightarrow> int" where
  "int64 x = (x + 2 ^ 63) mod 2 ^ 64 - 2 ^ 63"

text \<open>
  The byte loop of \<open>readFromPos\<close>: \<open>bs\<close> are the bytes the reader still delivers before
  end of file, \<open>buffer\<close> and \<open>currentPos\<close> are the loop's variables, \<open>out\<close> collects the
  arguments of the \<open>onExecute\<close> calls made so far.  The result is taken at end of file.
\<close>

fun readBytes :: "string \<Rightarrow> string \<Rightarrow> int \<Rightarrow> string list \<Rightarrow> string list \<times> string \<times> int" where
  "readBytes [] buffer currentPos out = (out, buffer, currentPos)"
| "readBytes (b # bs) buffer currentPos out =
     (if isTerminator b
      then (if buffer \<noteq> [] then readBytes bs [] (int64 (currentPos + 1)) (out @ [buffer])
            else readBytes bs [] (int64 (currentPos + 1)) out)
      else readBytes bs (buffer @ [b]) (int64 (currentPos + 1)) out)"

text \<open>
  \<open>readFromPos\<close>: \<open>locked\<close> says whether \<open>mutex.TryLock\<close> fails, \<open>file\<close> is the content
  of the file at this read (\<open>None\<close> when it cannot be opened).  The result is the list of
  lines handed to \<open>onExecute\<close> and the returned position.  The source ignores the error of
  the seek, so after a failed seek the bytes are read from offset 0 while \<open>currentPos\<close>
  still starts at \<open>startPos\<close>; a seek past the end succeeds and the first read reports
  end of file.  \<open>endPos\<close> is the file offset after the loop.
\<close>

definition readFromPos :: "int \<Rightarrow> bool \<Rightarrow> string option \<Rightarrow> int \<Rightarrow> bool \<Rightarrow> string list \<times> int" where
  "readFromPos maxOffset locked file startPos flushIncomplete =
     (if locked then ([], - 1)
      else case file of
        None \<Rightarrow> ([], startPos)
      | Some f \<Rightarrow>
          (let bs = (if seekOK maxOffset startPos then drop (nat startPos) f else f);
               (out, buffer, currentPos) = readBytes bs [] startPos [];
               flushed = (flushIncomplete \<and> buffer \<noteq> []);
               out' = (if flushed then out @ [buffer] else out);
               buffer' = (if flushed then [] else buffer);
               endPos = (if seekOK maxOffset startPos then max startPos (int (length f))
                         else int (length f))
           in if \<not> flushIncomplete \<and> buffer' \<noteq> []
              then (out', int64 (currentPos - int (length buffer')))
              else (out', endPos)))"

text \<open>
  \<open>tailStdPipe\<close>: one periodic read per tick, each on the file as it is at that tick,
  then the final read when \<open>done\<close> is closed.  The mutex is local to the call and free
  at every read.  The result is every line handed to \<open>onExecute\<close>, in order.
\<close>

fun tailLoop :: "int \<Rightarrow> string option list \<Rightarrow> string option \<Rightarrow> int \<Rightarrow> string list" where
  "tailLoop maxOffset [] final lastPos = fst (readFromPos maxOffset False final lastPos True)"
| "tailLoop maxOffset (f # ticks) final lastPos =
     (case readFromPos maxOffset False f lastPos False of
        (out, newPos) \<Rightarrow> out @ tailLoop maxOffset ticks final newPos)"

definition tailStdPipe :: "int \<Rightarrow> string option list \<Rightarrow> string option \<Rightarrow> string list" where
  "tailStdPipe maxOffset ticks final = tailLoop maxOffset ticks final 0"

text \<open>
  The specification's view of a text: its segments between terminators; the last segment
  is the trailing partial line (empty when the text ends with a terminator).
\<close>

fun splitOn :: "('a \<Rightarrow> bool) \<Rightarrow> 'a list \<Rightarrow> 'a list list" where
  "splitOn P [] = [[]]"
| "splitOn P (x # xs) =
     (if P x then [] # splitOn P xs
      else (x # hd (splitOn P xs)) # tl (splitOn P xs))"

definition completeLines :: "string \<Rightarrow> string list" where
  "completeLines text = filter (\<lambda>l. l \<noteq> []) (butlast (splitOn isTerminator text))"

definition partialLine :: "string \<Rightarrow> string" where
  "partialLine text = last (splitOn isTerminator text)"

definition allLines :: "string \<Rightarrow> string list" where
  "allLines text = filter (\<lambda>l. l \<noteq> []) (splitOn isTerminator text)"

text \<open>
  The file is only appended to while it is tailed: each snapshot is a prefix of the next
  one, and the last of the file at the final read.
\<close>

fun appendOnly :: "string list \<Rightarrow> string \<Rightarrow> bool" where
  "appendOnly [] final = True"
| "appendOnly (f # fs) final = (prefix f (case fs of [] \<Rightarrow> final | g # gs \<Rightarrow> g) \<and> appendOnly fs final)"

subsection \<open>Reading the output of a background command (command_status.go)\<close>

datatype seekError =
    CommandNotFound string
  | NotInBackground string
  | OpenError string
  | SeekError
  | ReadError

text \<open>
  \<open>SeekBackgroundCommandOutput\<close>: \<open>maxOffset\<close> is the largest offset the file system
  accepts, \<open>fs\<close> maps a path to the content of the file there (\<open>None\<close> when it cannot be
  opened).  An error result \<open>Inl e\<close> stands for the Go triple \<open>(nil, -1, e)\<close>.
  \<open>file.Seek(cursor, 0)\<close> fails on a negative offset and on one beyond \<open>maxOffset\<close>;
  \<open>io.ReadAll\<close> delivers the bytes from the offset to the end, and the offset it leaves
  behind, which \<open>file.Seek(0, 1)\<close> reports, is the seek offset plus the number of bytes
  read.
\<close>

definition SeekBackgroundCommandOutput ::
  "int \<Rightarrow> Controller \<Rightarrow> (string \<Rightarrow> string option) \<Rightarrow> string \<Rightarrow> int \<Rightarrow> seekError + string \<times> int" where
  "SeekBackgroundCommandOutput maxOffset c fs session cursor =
     (case commandSnapshot c session of
        None \<Rightarrow> Inl (CommandNotFound session)
      | Some kern \<Rightarrow>
          if \<not> isBackground kern then Inl (NotInBackground session)
          else case fs (stdoutPath kern) of
            None \<Rightarrow> Inl (OpenError session)
          | Some file \<Rightarrow>
              if \<not> seekOK maxOffset cursor then Inl SeekError
              else (let data = drop (nat cursor) file;
                        currentPos = cursor + int (length data)
                    in Inr (data, currentPos)))"

text \<open>The bytes of a file from offset \<open>a\<close> up to offset \<open>b\<close>.\<close>

definition fileSlice :: "string \<Rightarrow> int \<Rightarrow> int \<Rightarrow> string" where
  "fileSlice file a b = take (nat (b - a)) (drop (nat a) file)"

text \<open>
  For concrete examples: a finished background \<open>printf\<close> registered as \<open>s1\<close>, and a
  file system that holds its combined output of two lines.
\<close>

definition demoBackground :: Controller where
  "demoBackground =
     storeCommandKernel ''s1''
       \<lparr>pid = 7, stdoutPath = ''/tmp/s1.output'', stderrPath = ''/tmp/s1.output'',
        startedAt = 1, finishedAt = Some 2, exitCode = Some 0, errMsg = [], running = False,
        isBackground = True, content = ''printf''\<rparr> NewController"

definition demoOutputFS :: "string \<Rightarrow> string option" where
  "demoOutputFS p =
     (if p = ''/tmp/s1.output'' then Some ''line1\<newline>line2\<newline>'' else None)"

text \<open>
  The Jupyter server is outside the program.  \<open>Session\<close> is what \<open>createContext\<close>
  gets back from it (\<open>session.ID\<close> and \<open>session.Kernel.ID\<close>); the argument \<open>created\<close>
  of the two creation functions is the outcome of the retried \<open>createContext\<close> workflow.
\<close>

record Session =
  sessID :: string
  sessKernelID :: string

definition CreateContext ::
  "string + Session \<Rightarrow> Language \<Rightarrow> Controller \<Rightarrow> (string + string) \<times> Controller" where
  "CreateContext created lang c =
     (case created of
        Inl err \<Rightarrow> (Inl err, c)
      | Inr session \<Rightarrow>
          (Inr (sessID session),
           storeJupyterKernel (sessID session)
             \<lparr>kernelID = sessKernelID session, language = lang\<rparr> c))"

definition createDefaultLanguageContext ::
  "string + Session \<Rightarrow> Language \<Rightarrow> Controller \<Rightarrow> string option \<times> Controller" where
  "createDefaultLanguageContext created lang c =
     (case created of
        Inl err \<Rightarrow> (Some err, c)
      | Inr session \<Rightarrow>
          (None,
           c\<lparr>defaultLanguageJupyterSessions :=
                AList.update lang (sessID session) (defaultLanguageJupyterSessions c),
              jupyterClientMap :=
                AList.update (sessID session)
                  (Some \<lparr>kernelID = sessKernelID session, language = lang\<rparr>)
                  (jupyterClientMap c)\<rparr>))"

text \<open>Reading a Go map of strings at a key: the empty string when the key is absent.\<close>

definition strAt :: "('k \<times> string) list \<Rightarrow> 'k \<Rightarrow> string" where
  "strAt m k = (case map_of m k of None \<Rightarrow> [] | Some s \<Rightarrow> s)"

text \<open>The first loop of \<open>listLanguageContexts\<close>, over the kernel map.\<close>

definition kernelContexts ::
  "(string \<times> jupyterKernel option) list \<Rightarrow> Language \<Rightarrow> CodeContext list" where
  "kernelContexts m lang =
     concat (map (\<lambda>(session, kern).
                    case kern of
                      None \<Rightarrow> []
                    | Some k \<Rightarrow>
                        if language k = lang then [\<lparr>ID = session, Language = lang\<rparr>] else [])
                 m)"

definition listLanguageContexts :: "Controller \<Rightarrow> Language \<Rightarrow> CodeContext list" where
  "listLanguageContexts c lang =
     (let contexts = kernelContexts (jupyterClientMap c) lang;
          defaultContext = strAt (defaultLanguageJupyterSessions c) lang
      in if defaultContext \<noteq> [] then contexts @ [\<lparr>ID = defaultContext, Language = lang\<rparr>]
         else contexts)"

text \<open>
  A history of successful context creations: \<open>Explicit\<close> is a \<open>CreateContext\<close> call,
  \<open>Implicit\<close> the provisioning of a language's default context by \<open>runJupyter\<close>.
\<close>

datatype ctxOp = Explicit Language Session | Implicit Language Session

fun opLanguage :: "ctxOp \<Rightarrow> Language" where
  "opLanguage (Explicit l s) = l"
| "opLanguage (Implicit l s) = l"

fun opSession :: "ctxOp \<Rightarrow> Session" where
  "opSession (Explicit l s) = s"
| "opSession (Implicit l s) = s"

fun isImplicit :: "ctxOp \<Rightarrow> bool" where
  "isImplicit (Explicit l s) = False"
| "isImplicit (Implicit l s) = True"

fun applyOp :: "ctxOp \<Rightarrow> Controller \<Rightarrow> Controller" where
  "applyOp (Explicit l s) c = snd (CreateContext (Inr s) l c)"
| "applyOp (Implicit l s) c = snd (createDefaultLanguageContext (Inr s) l c)"

fun runOps :: "ctxOp list \<Rightarrow> Controller \<Rightarrow> Controller" where
  "runOps [] c = c"
| "runOps (x # xs) c = runOps xs (applyOp x c)"

definition opEntry :: "ctxOp \<Rightarrow> string \<times> jupyterKernel option" where
  "opEntry x = (sessID (opSession x),
                Some \<lparr>kernelID = sessKernelID (opSession x), language = opLanguage x\<rparr>)"

subsection \<open>Kernel lookup by language (\<open>searchKernel\<close> in ctrl.go)\<close>

text \<open>
  The kernelspecs listing as the Jupyter client decodes it.  \<open>Kernelspecs\<close> is a Go map
  from names to pointers; the association list gives the order in which the \<open>range\<close>
  loop happens to visit it, which Go leaves unspecified.
\<close>

record KernelSpecDetail =
  Spec_DisplayName :: string
  Spec_Language :: string

record KernelSpecInfo =
  Info_Name :: string
  Spec :: KernelSpecDetail

record KernelSpecs =
  Default :: string
  Kernelspecs :: "(string \<times> KernelSpecInfo option) list"

text \<open>
  The \<open>range\<close> loop: \<open>kernelName\<close> is overwritten at every matching entry and the loop
  has no \<open>break\<close>.  Reading \<open>spec.Spec.Language\<close> through a nil pointer panics.
\<close>

fun searchLoop ::
  "(string \<times> KernelSpecInfo option) list \<Rightarrow> string \<Rightarrow> string \<Rightarrow> goPanic + string" where
  "searchLoop [] lang kernelName = Inr kernelName"
| "searchLoop ((name, spec) # rest) lang kernelName =
     (if name = ''python3'' then searchLoop rest lang kernelName
      else case spec of
        None \<Rightarrow> Inl NilPointerDereference
      | Some info \<Rightarrow>
          if Spec_Language (Spec info) = lang then searchLoop rest lang name
          else searchLoop rest lang kernelName)"

text \<open>
  \<open>searchKernel\<close>: \<open>listing\<close> is the outcome of \<open>client.GetKernelSpecs()\<close>.  The result is
  a panic, or the returned pair as \<open>Inl\<close> error text or \<open>Inr\<close> kernel name.
\<close>

definition searchKernel :: "string + KernelSpecs \<Rightarrow> Language \<Rightarrow> goPanic + (string + string)" where
  "searchKernel listing lang =
     (case listing of
        Inl err \<Rightarrow> Inr (Inl err)
      | Inr specs \<Rightarrow>
          if length (Kernelspecs specs) = 0 then Inr (Inl ''no kernel specs found'')
          else case searchLoop (Kernelspecs specs) lang [] of
            Inl p \<Rightarrow> Inl p
          | Inr kernelName \<Rightarrow>
              if kernelName = [] then Inr (Inl ''no kernel specs found'')
              else Inr (Inr kernelName))"

text \<open>The entries the lookup may select: not named \<open>python3\<close>, of the target language.\<close>

definition specMatches :: "Language \<Rightarrow> string \<times> KernelSpecInfo option \<Rightarrow> bool" where
  "specMatches lang e \<longleftrightarrow>
     fst e \<noteq> ''python3'' \<and>
     (case snd e of None \<Rightarrow> False | Some info \<Rightarrow> Spec_Language (Spec info) = lang)"

text \<open>
  The lookup in the specification's words: the first name whose language equals the
  target, the spec named \<open>python3\<close> excluded, and the NoKernelSpec failure otherwise.
\<close>

definition searchKernel_spec :: "KernelSpecs \<Rightarrow> Language \<Rightarrow> string + string" where
  "searchKernel_spec specs lang =
     (case filter (specMatches lang) (Kernelspecs specs) of
        [] \<Rightarrow> Inl ''no kernel specs found''
      | e # es \<Rightarrow> Inr (fst e))"

subsection \<open>Interrupt (interrupt.go, POSIX build)\<close>

text \<open>
  \<open>interrupt.go\<close> is built on every system but Windows (\<open>//go:build !windows\<close>); the
  Windows build has a \<open>killPid\<close> of its own that calls \<open>process.Kill\<close> and is not
  modelled here.

  What the controller asks of the outside world, as a trace.  \<open>Kill p s\<close> is the system
  call \<open>kill(p, s)\<close>: a positive \<open>p\<close> addresses the one process with that pid, a negative
  \<open>p\<close> the process group \<open>-p\<close>.  \<open>os.Process.Signal\<close> calls it with the process's own
  pid.  \<open>WaitUpTo p ms\<close> is the \<open>select\<close> between \<open>process.Wait()\<close> and the timer,
  \<open>Sleep ms\<close> is \<open>time.Sleep\<close>, \<open>SIGNULL\<close> is \<open>syscall.Signal(0)\<close>.
\<close>

datatype signal = SIGTERM | SIGKILL | SIGCHLD | SIGURG | SIGNULL | OtherSignal nat

datatype sysAction =
    JupyterInterrupt string
  | Kill int signal
  | WaitUpTo int nat
  | Sleep nat

datatype interruptError =
    InterruptFailed string
  | FindProcessFailed string
  | KillFailed int string
  | MightStillBeRunning int
  | NoSuchSession

text \<open>\<open>strings.Contains\<close>.\<close>

fun Contains :: "string \<Rightarrow> string \<Rightarrow> bool" where
  "Contains [] substr = (substr = [])"
| "Contains (c # s) substr = (prefix substr (c # s) \<or> Contains s substr)"

text \<open>
  The answers of the operating system and of the Jupyter server during one interrupt: the
  error text of each call (\<open>None\<close> for success), and for the wait whether it returned
  within three seconds.
\<close>

datatype waitOutcome = Waited "string option" | TimedOut

record killEnv =
  interruptErr :: "string option"
  findProcessErr :: "string option"
  sigtermErr :: "string option"
  waitOutcome :: waitOutcome
  sigkillErr :: "string option"
  probeErr :: "nat \<Rightarrow> string option"

text \<open>
  The confirmation loop \<open>for range 3\<close> of \<open>killPid\<close>: \<open>n\<close> iterations remain, \<open>i\<close> is the
  number of the next probe.  The result says whether the exit was confirmed.
\<close>

fun probeLoop :: "nat \<Rightarrow> (nat \<Rightarrow> string option) \<Rightarrow> int \<Rightarrow> nat \<Rightarrow> sysAction list \<times> bool" where
  "probeLoop 0 probe p i = ([], False)"
| "probeLoop (Suc n) probe p i =
     (case probe i of
        Some err \<Rightarrow>
          if Contains err ''already finished'' \<or> Contains err ''no such process''
          then ([Kill p SIGNULL], True)
          else (case probeLoop n probe p (Suc i) of
                  (tr, ok) \<Rightarrow> (Kill p SIGNULL # Sleep 50 # tr, ok))
      | None \<Rightarrow>
          (case probeLoop n probe p (Suc i) of
             (tr, ok) \<Rightarrow> (Kill p SIGNULL # Sleep 50 # tr, ok)))"

text \<open>The SIGTERM phase of \<open>killPid\<close>; the flag says whether \<open>killPid\<close> returns nil here.\<close>

definition sigtermPhase :: "killEnv \<Rightarrow> int \<Rightarrow> sysAction list \<times> bool" where
  "sigtermPhase env p =
     (case sigtermErr env of
        Some err \<Rightarrow> ([Kill p SIGTERM], Contains err ''already finished'')
      | None \<Rightarrow>
          (case waitOutcome env of
             Waited None \<Rightarrow> ([Kill p SIGTERM, WaitUpTo p 3000], True)
           | Waited (Some err) \<Rightarrow> ([Kill p SIGTERM, WaitUpTo p 3000], False)
           | TimedOut \<Rightarrow> ([Kill p SIGTERM, WaitUpTo p 3000], False)))"

text \<open>
  The SIGKILL phase of \<open>killPid\<close>, from \<open>process.Signal(syscall.SIGKILL)\<close> to the end of
  the function: its trace and the error \<open>killPid\<close> returns.
\<close>

definition sigkillPhase :: "killEnv \<Rightarrow> int \<Rightarrow> sysAction list \<times> interruptError option" where
  "sigkillPhase env p =
     (case sigkillErr env of
        Some err \<Rightarrow>
          if Contains err ''already finished'' then ([Kill p SIGKILL], None)
          else ([Kill p SIGKILL], Some (KillFailed p err))
      | None \<Rightarrow>
          (case probeLoop 3 (probeErr env) p 0 of
             (tr3, True) \<Rightarrow> (Kill p SIGKILL # tr3, None)
           | (tr3, False) \<Rightarrow> (Kill p SIGKILL # tr3, Some (MightStillBeRunning p))))"

definition killPid :: "killEnv \<Rightarrow> int \<Rightarrow> sysAction list \<times> interruptError option" where
  "killPid env p =
     (case findProcessErr env of
        Some err \<Rightarrow> ([], Some (FindProcessFailed err))
      | None \<Rightarrow>
          (case sigtermPhase env p of
             (tr1, True) \<Rightarrow> (tr1, None)
           | (tr1, False) \<Rightarrow>
               (case sigkillPhase env p of (tr2, r) \<Rightarrow> (tr1 @ tr2, r))))"

definition Interrupt ::
  "Controller \<Rightarrow> killEnv \<Rightarrow> string \<Rightarrow> sysAction list \<times> interruptError option" where
  "Interrupt c env sessionID =
     (case getJupyterKernel c sessionID of
        Some kern \<Rightarrow>
          ([JupyterInterrupt (kernelID kern)], map_option InterruptFailed (interruptErr env))
      | None \<Rightarrow>
          (case getCommandKernel c sessionID of
             Some kern \<Rightarrow> killPid env (pid kern)
           | None \<Rightarrow> ([], Some NoSuchSession)))"

text \<open>
  The signal relay of \<open>runCommand\<close>, for comparison: a signal received by the daemon is
  sent to the child's process group with \<open>syscall.Kill(-cmd.Process.Pid, sig)\<close>.
\<close>

definition relaySignal :: "int \<Rightarrow> signal \<Rightarrow> sysAction list" where
  "relaySignal childPid' sig =
     (if sig \<noteq> SIGCHLD \<and> sig \<noteq> SIGURG then [Kill (- childPid') sig] else [])"

text \<open>The target of a trace entry that is a signal.\<close>

fun signalTarget :: "sysAction \<Rightarrow> int option" where
  "signalTarget (Kill p s) = Some p"
| "signalTarget a = None"

text \<open>
  The answer of a probe with signal 0 confirms the exit when it is an error whose text
  contains \<open>already finished\<close> or \<open>no such process\<close>.
\<close>

definition confirmsExit :: "string option \<Rightarrow> bool" where
  "confirmsExit answer =
     (case answer of
        None \<Rightarrow> False
      | Some err \<Rightarrow> Contains err ''already finished'' \<or> Contains err ''no such process'')"

text \<open>\<open>n\<close> probes that did not confirm the exit, each followed by its 50 ms sleep.\<close>

definition probeRounds :: "nat \<Rightarrow> int \<Rightarrow> sysAction list" where
  "probeRounds n p = concat (replicate n [Kill p SIGNULL, Sleep 50])"

text \<open>
  A controller with one kernel context \<open>j1\<close> and one running foreground command \<open>s1\<close>
  with pid 42, and an operating system in which the command ignores SIGTERM and still
  answers every probe after SIGKILL.
\<close>

definition demoController :: Controller where
  "demoController =
     storeCommandKernel ''s1''
       \<lparr>pid = 42, stdoutPath = ''/tmp/s1.stdout'', stderrPath = ''/tmp/s1.stderr'',
        startedAt = 5, finishedAt = None, exitCode = None, errMsg = [], running = True,
        isBackground = False, content = ''sleep 100; true''\<rparr>
       (storeJupyterKernel ''j1'' \<lparr>kernelID = ''k1'', language = ''python''\<rparr> NewController)"

definition stubbornEnv :: killEnv where
  "stubbornEnv =
     \<lparr>interruptErr = None, findProcessErr = None, sigtermErr = None, waitOutcome = TimedOut,
      sigkillErr = None, probeErr = (\<lambda>i. None)\<rparr>"

text \<open>
  An operating system in which the command ignores SIGTERM and is gone after SIGKILL,
  which the second probe reports.
\<close>

definition lingeringEnv :: killEnv where
  "lingeringEnv =
     \<lparr>interruptErr = None, findProcessErr = None, sigtermErr = None, waitOutcome = TimedOut,
      sigkillErr = None,
      probeErr = (\<lambda>i. if i = 0 then None else Some ''os: process already finished'')\<rparr>"

subsection \<open>String functions of the Go library used by the program\<close>

text \<open>
  White space is what \<open>unicode.IsSpace\<close> accepts.  On the bytes of a Go string these are
  the UTF-8 encodings below: U+0009 to U+000D, U+0020, U+0085, U+00A0, U+1680, U+2000 to
  U+200A, U+2028, U+2029, U+202F, U+205F and U+3000.  Every encoding starts with an ASCII
  byte or a leading byte and continues with continuation bytes only, so an occurrence in
  a byte string is always decoded as that rune, also next to invalid bytes.
\<close>

definition unicodeSpaces :: "string list" where
  "unicodeSpaces =
     [[CHR 0x09], [CHR 0x0A], [CHR 0x0B], [CHR 0x0C], [CHR 0x0D], [CHR 0x20],
      [CHR 0xC2, CHR 0x85], [CHR 0xC2, CHR 0xA0],
      [CHR 0xE1, CHR 0x9A, CHR 0x80],
      [CHR 0xE2, CHR 0x80, CHR 0x80], [CHR 0xE2, CHR 0x80, CHR 0x81],
      [CHR 0xE2, CHR 0x80, CHR 0x82], [CHR 0xE2, CHR 0x80, CHR 0x83],
      [CHR 0xE2, CHR 0x80, CHR 0x84], [CHR 0xE2, CHR 0x80, CHR 0x85],
      [CHR 0xE2, CHR 0x80, CHR 0x86], [CHR 0xE2, CHR 0x80, CHR 0x87],
      [CHR 0xE2, CHR 0x80, CHR 0x88], [CHR 0xE2, CHR 0x80, CHR 0x89],
      [CHR 0xE2, CHR 0x80, CHR 0x8A],
      [CHR 0xE2, CHR 0x80, CHR 0xA8], [CHR 0xE2, CHR 0x80, CHR 0xA9],
      [CHR 0xE2, CHR 0x80, CHR 0xAF], [CHR 0xE2, CHR 0x81, CHR 0x9F],
      [CHR 0xE3, CHR 0x80, CHR 0x80]]"

text \<open>The width in bytes of the white-space rune at the head of a string, 0 when none.\<close>

definition spaceWidth :: "string \<Rightarrow> nat" where
  "spaceWidth s =
     (if take 1 s \<in> set unicodeSpaces then 1
      else if take 2 s \<in> set unicodeSpaces then 2
      else if take 3 s \<in> set unicodeSpaces then 3
      else 0)"

text \<open>
  For every byte of a string, whether it belongs to a white-space rune; \<open>k\<close> counts the
  bytes of the current white-space rune still to come.
\<close>

fun spaceMarks :: "nat \<Rightarrow> string \<Rightarrow> bool list" where
  "spaceMarks k [] = []"
| "spaceMarks k (c # cs) =
     (if 0 < k then True # spaceMarks (k - 1) cs
      else if 0 < spaceWidth (c # cs) then True # spaceMarks (spaceWidth (c # cs) - 1) cs
      else False # spaceMarks 0 cs)"


text \<open>\<open>strings.Fields\<close>: the maximal runs of bytes outside white space.\<close>

definition Fields :: "string \<Rightarrow> string list" where
  "Fields s =
     map (map fst) (filter (\<lambda>t. t \<noteq> []) (splitOn snd (zip s (spaceMarks 0 s))))"




text \<open>
  \<open>strings.ToUpper\<close>: on an ASCII-only string the letters a to z are mapped to A to Z;
  any other string is mapped rune by rune through \<open>unicode.ToUpper\<close>, which is the
  parameter \<open>unicodeUpper\<close>.
\<close>

definition asciiUpper :: "char \<Rightarrow> char" where
  "asciiUpper c =
     (case map_of (zip ''abcdefghijklmnopqrstuvwxyz'' ''ABCDEFGHIJKLMNOPQRSTUVWXYZ'') c of
        None \<Rightarrow> c
      | Some u \<Rightarrow> u)"

definition ToUpper :: "(string \<Rightarrow> string) \<Rightarrow> string \<Rightarrow> string" where
  "ToUpper unicodeUpper s =
     (if \<forall>c \<in> set s. (of_char c :: nat) < 128 then map asciiUpper s else unicodeUpper s)"

text \<open>A string is blank when it is a sequence of white-space runes, possibly empty.\<close>

inductive blank :: "string \<Rightarrow> bool" where
  empty: "blank []"
| space: "w \<in> set unicodeSpaces \<Longrightarrow> blank s \<Longrightarrow> blank (w @ s)"


subsection \<open>The SQL executor (sql.go)\<close>

text \<open>The calls of the request's hooks, in order; an error output is name and value.\<close>

datatype hookEvent =
    OnExecuteInit string
  | OnExecuteResult "(string \<times> string) list" nat
  | OnExecuteError string string
  | OnExecuteComplete nat

text \<open>
  JSON values as \<open>encoding/json\<close> sees the \<open>QueryResult\<close> struct.  Rendering a value as
  text is the library's business: \<open>Marshal\<close> below is a parameter, with \<open>Inl\<close> for the
  error the source checks for.
\<close>

datatype json =
    JNull
  | JString string
  | JNumber int
  | JArray "json list"
  | JObject "(string \<times> json) list"

text \<open>
  \<open>QueryResult\<close> with its field tags: \<open>columns\<close>, \<open>rows\<close> and \<open>error\<close> are all
  \<open>omitempty\<close>, so an empty slice or string leaves its key out of the object.
\<close>

definition QueryResult_json :: "string list \<Rightarrow> json list list \<Rightarrow> string \<Rightarrow> json" where
  "QueryResult_json cols rows err =
     JObject
       ((if cols = [] then [] else [(''columns'', JArray (map JString cols))]) @
        (if rows = [] then [] else [(''rows'', JArray (map JArray rows))]) @
        (if err = [] then [] else [(''error'', JString err)]))"

text \<open>
  The answers of the database during one request.  A cell of a scanned row is nil
  (\<open>None\<close>) or a driver value; \<open>rowScans\<close> holds, for every \<open>rows.Next()\<close>, the outcome
  of \<open>rows.Scan\<close>.
\<close>

record 'v queryRows =
  columnsRes :: "string + string list"
  rowScans :: "(string + 'v option list) list"

record 'v sqlEnv =
  sessionUUID :: string
  initErr :: "string option"
  pingErr :: "string option"
  queryRes :: "string + 'v queryRows"
  execRes :: "string + int"
  elapsed :: nat

text \<open>
  \<open>getQueryType\<close> indexes the token list at 0 without a length check: on an empty list
  the Go runtime panics.
\<close>

definition getQueryType :: "(string \<Rightarrow> string) \<Rightarrow> string \<Rightarrow> goPanic + string" where
  "getQueryType unicodeUpper query =
     (case Fields query of
        [] \<Rightarrow> Inl IndexOutOfRange
      | firstWord # ws \<Rightarrow> Inr (ToUpper unicodeUpper firstWord))"

text \<open>
  A cell of the result: nil stays nil, any other value becomes the string
  \<open>fmt.Sprintf("%v", v)\<close>, which is the parameter \<open>sprint\<close>.
\<close>

definition cellJSON :: "('v \<Rightarrow> string) \<Rightarrow> 'v option \<Rightarrow> json" where
  "cellJSON sprint v = (case v of None \<Rightarrow> JNull | Some x \<Rightarrow> JString (sprint x))"

text \<open>The row loop of \<open>executeSelectSQLQuery\<close>; it ends at the first failing scan.\<close>

fun scanRows ::
  "('v \<Rightarrow> string) \<Rightarrow> (string + 'v option list) list \<Rightarrow> json list list \<Rightarrow> string + json list list" where
  "scanRows sprint [] result = Inr result"
| "scanRows sprint (Inl err # rest) result = Inl err"
| "scanRows sprint (Inr values # rest) result =
     scanRows sprint rest (result @ [map (cellJSON sprint) values])"

text \<open>Both executors return the hook calls they made and the Go error they return.\<close>

definition executeSelectSQLQuery ::
  "'v sqlEnv \<Rightarrow> (json \<Rightarrow> string + string) \<Rightarrow> ('v \<Rightarrow> string) \<Rightarrow> hookEvent list \<times> string option" where
  "executeSelectSQLQuery env Marshal sprint =
     (case queryRes env of
        Inl err \<Rightarrow> ([OnExecuteError ''DBQueryError'' err], None)
      | Inr rows \<Rightarrow>
          (case columnsRes rows of
             Inl err \<Rightarrow> ([OnExecuteError ''DBQueryError'' err], None)
           | Inr cols \<Rightarrow>
               (case scanRows sprint (rowScans rows) [] of
                  Inl err \<Rightarrow> ([OnExecuteError ''RowScanError'' err], None)
                | Inr result \<Rightarrow>
                    (case Marshal (QueryResult_json cols result []) of
                       Inl err \<Rightarrow> ([OnExecuteError ''JSONMarshalError'' err], None)
                     | Inr bytes \<Rightarrow>
                         ([OnExecuteResult [(''text/plain'', bytes)] 1,
                           OnExecuteComplete (elapsed env)], None)))))"

definition executeUpdateSQLQuery ::
  "'v sqlEnv \<Rightarrow> (json \<Rightarrow> string + string) \<Rightarrow> hookEvent list \<times> string option" where
  "executeUpdateSQLQuery env Marshal =
     (case execRes env of
        Inl err \<Rightarrow> ([OnExecuteError ''DBExecError'' err], Some err)
      | Inr affected \<Rightarrow>
          (case Marshal (QueryResult_json [''affected_rows''] [[JNumber affected]] []) of
             Inl err \<Rightarrow> ([OnExecuteError ''JSONMarshalError'' err], Some err)
           | Inr bytes \<Rightarrow>
               ([OnExecuteResult [(''text/plain'', bytes)] 1,
                 OnExecuteComplete (elapsed env)], None)))"

text \<open>
  \<open>runSQL\<close>: the hook calls made, and either the panic that ends the call or the error
  it returns.
\<close>

definition runSQL ::
  "'v sqlEnv \<Rightarrow> (json \<Rightarrow> string + string) \<Rightarrow> ('v \<Rightarrow> string) \<Rightarrow> (string \<Rightarrow> string) \<Rightarrow> string \<Rightarrow>
   hookEvent list \<times> (goPanic + string option)" where
  "runSQL env Marshal sprint unicodeUpper code =
     (case initErr env of
        Some err \<Rightarrow>
          ([OnExecuteInit (sessionUUID env), OnExecuteError ''DBInitError'' err], Inr (Some err))
      | None \<Rightarrow>
          (case pingErr env of
             Some err \<Rightarrow>
               ([OnExecuteInit (sessionUUID env), OnExecuteError ''DBPingError'' err],
                Inr (Some err))
           | None \<Rightarrow>
               (case getQueryType unicodeUpper code of
                  Inl p \<Rightarrow> ([OnExecuteInit (sessionUUID env)], Inl p)
                | Inr queryType \<Rightarrow>
                    (case (if queryType = ''SELECT'' then executeSelectSQLQuery env Marshal sprint
                           else executeUpdateSQLQuery env Marshal) of
                       (tr, r) \<Rightarrow> (OnExecuteInit (sessionUUID env) # tr, Inr r)))))"

text \<open>
  For concrete examples: JSON values as compact text, the way \<open>encoding/json\<close> prints
  them when no string needs escaping, and a \<open>Marshal\<close> that never fails.
\<close>

definition digitChar :: "nat \<Rightarrow> char" where
  "digitChar d = (''0123456789'' ! d)"

function showNat :: "nat \<Rightarrow> string" where
  "showNat n = (if n < 10 then [digitChar n] else showNat (n div 10) @ [digitChar (n mod 10)])"
  by pat_completeness auto
termination
  by (relation "measure id") auto

declare showNat.simps [simp del]

definition showInt :: "int \<Rightarrow> string" where
  "showInt i = (if i < 0 then CHR ''-'' # showNat (nat (- i)) else showNat (nat i))"

fun joinWith :: "string \<Rightarrow> string list \<Rightarrow> string" where
  "joinWith sep [] = []"
| "joinWith sep [x] = x"
| "joinWith sep (x # y # ys) = x @ sep @ joinWith sep (y # ys)"

fun compactJSON :: "json \<Rightarrow> string" where
  "compactJSON JNull = ''null''"
| "compactJSON (JString s) = [CHR 0x22] @ s @ [CHR 0x22]"
| "compactJSON (JNumber i) = showInt i"
| "compactJSON (JArray xs) = ''['' @ joinWith '','' (map compactJSON xs) @ '']''"
| "compactJSON (JObject kvs) =
     ''{'' @ joinWith '','' (map (\<lambda>(k, v). [CHR 0x22] @ k @ [CHR 0x22] @ '':'' @ compactJSON v) kvs)
     @ ''}''"

definition compactMarshal :: "json \<Rightarrow> string + string" where
  "compactMarshal j = Inr (compactJSON j)"

definition noUnicodeUpper :: "string \<Rightarrow> string" where
  "noUnicodeUpper s = s"

definition sprintString :: "string \<Rightarrow> string" where
  "sprintString v = v"

text \<open>
  Three databases: one that answers \<open>SELECT 1\<close> with one row, one that answers a
  \<open>SELECT\<close> with the column \<open>id\<close> and no row, and one that rejects the query.
\<close>

definition oneRowDB :: "string sqlEnv" where
  "oneRowDB =
     \<lparr>sessionUUID = ''u1'', initErr = None, pingErr = None,
      queryRes = Inr \<lparr>columnsRes = Inr [''1''], rowScans = [Inr [Some ''1'']]\<rparr>,
      execRes = Inr 3, elapsed = 7\<rparr>"

definition noRowDB :: "string sqlEnv" where
  "noRowDB =
     \<lparr>sessionUUID = ''u1'', initErr = None, pingErr = None,
      queryRes = Inr \<lparr>columnsRes = Inr [''id''], rowScans = []\<rparr>,
      execRes = Inr 0, elapsed = 7\<rparr>"

definition failingDB :: "string sqlEnv" where
  "failingDB =
     \<lparr>sessionUUID = ''u1'', initErr = None, pingErr = None,
      queryRes = Inl ''no such table'',
      execRes = Inl ''no such table'', elapsed = 7\<rparr>"

text \<open>
  Two databases that are out of reach: one whose initialisation fails, and one that is
  initialised but does not answer the ping.
\<close>

definition downDB :: "string sqlEnv" where
  "downDB =
     \<lparr>sessionUUID = ''u1'', initErr = Some ''connection refused'', pingErr = None,
      queryRes = Inl ''unused'', execRes = Inl ''unused'', elapsed = 7\<rparr>"

definition silentDB :: "string sqlEnv" where
  "silentDB =
     \<lparr>sessionUUID = ''u1'', initErr = None, pingErr = Some ''bad connection'',
      queryRes = Inl ''unused'', execRes = Inl ''unused'', elapsed = 7\<rparr>"

subsection \<open>The extra-env loader (env.go)\<close>














section \<open>Properties\<close>

subsection \<open>Lifecycle of command contexts\<close>

lemma set_update_cases:
  "(k', v') \<in> set (AList.update k v al) \<Longrightarrow> (k', v') = (k, v) \<or> (k', v') \<in> set al"
  by (induction al) (auto split: if_splits)

lemma registryOK_store:
  "registryOK b f c \<Longrightarrow> stateOK b f k \<Longrightarrow> registryOK b f (storeCommandKernel session k c)"
  unfolding registryOK_def storeCommandKernel_def
  by (auto dest!: set_update_cases split: option.splits)

lemma registryOK_mark:
  "registryOK b f c \<Longrightarrow> registryOK b f (markCommandFinished session code msg now c)"
  unfolding registryOK_def markCommandFinished_def
  by (auto dest!: set_update_cases simp: stateOK_def isFinished_def split: option.splits)

lemma registryOK_step: "registryOK b f c \<Longrightarrow> stepOK b f s \<Longrightarrow> registryOK b f (applyStep s c)"
  by (cases s) (simp_all add: registryOK_store registryOK_mark stepOK_def)

lemma runCommandExit_OK: "stepOK b f (runCommandExit session r)"
  by (simp add: runCommandExit_def stepOK_def split: waitResult.splits)

lemma store_running_OK:
  "running k \<Longrightarrow> exitCode k = None \<Longrightarrow> finishedAt k = None \<Longrightarrow> stepOK b f (Store session k)"
  by (simp add: stepOK_def stateOK_def isRunning_def)

lemma store_failed_OK:
  "\<not> running k \<Longrightarrow> exitCode k = None \<Longrightarrow> finishedAt k = None \<Longrightarrow> isBackground k \<Longrightarrow>
   pid k = - 1 \<Longrightarrow> stepOK POSIX True (Store session k)"
  by (simp add: stepOK_def stateOK_def isStartFailed_def)

lemma store_unmarked_OK:
  "\<not> running k \<Longrightarrow> exitCode k = None \<Longrightarrow> finishedAt k = None \<Longrightarrow> \<not> isBackground k \<Longrightarrow>
   stepOK Windows f (Store session k)"
  by (simp add: stepOK_def stateOK_def isUnmarked_def)

lemma mark_OK: "stepOK b f (MarkFinished session code msg now)"
  by (simp add: stepOK_def)

lemma runCommand_OK: "s \<in> set (runCommand tmp session code r) \<Longrightarrow> stepOK b f s"
  by (auto simp: runCommand_def runCommandExit_OK store_running_OK split: option.splits)

lemma runBackgroundCommand_OK:
  "f \<or> startErr r = None \<Longrightarrow> s \<in> set (runBackgroundCommand tmp session code r) \<Longrightarrow>
   stepOK POSIX f s"
  by (auto simp: runBackgroundCommand_def Let_def runCommandExit_OK store_running_OK
        store_failed_OK mark_OK split: option.splits)

lemma runCommandWindows_OK: "s \<in> set (runCommandWindows session code r) \<Longrightarrow> stepOK Windows f s"
  by (auto simp: runCommandWindows_def store_unmarked_OK split: option.splits)

lemma runBackgroundCommandWindows_OK:
  "s \<in> set (runBackgroundCommandWindows tmp session code r) \<Longrightarrow> stepOK b f s"
  by (auto simp: runBackgroundCommandWindows_def runCommandExit_OK store_running_OK
        split: option.splits)

lemma foregroundRunner_OK: "s \<in> set (foregroundRunner b tmp session code r) \<Longrightarrow> stepOK b f s"
  by (cases b) (simp_all add: foregroundRunner_def runCommand_OK runCommandWindows_OK)

lemma backgroundRunner_OK:
  "f \<or> startErr r = None \<Longrightarrow> s \<in> set (backgroundRunner b tmp session code r) \<Longrightarrow> stepOK b f s"
  by (cases b)
     (simp_all add: backgroundRunner_def runBackgroundCommand_OK runBackgroundCommandWindows_OK)

lemma reachable_invariant:
  "reachable b f st \<Longrightarrow>
     registryOK b f (fst st) \<and> (\<forall>th \<in> set (snd st). \<forall>s \<in> set th. stepOK b f s)"
proof (induction rule: reachable.induct)
  case init
  show ?case by (simp add: registryOK_def NewController_def)
next
  case (foreground c ths tmp session code r)
  then show ?case by (auto dest: foregroundRunner_OK)
next
  case (background c ths r tmp session code)
  have "\<forall>s \<in> set (backgroundRunner b tmp session code r). stepOK b f s"
    using background.hyps(2) by (blast intro: backgroundRunner_OK)
  with background.IH show ?case by auto
next
  case (critical c ths i s rest)
  have mem: "ths ! i \<in> set ths" using critical.hyps(2) by simp
  have all: "\<forall>x \<in> set (s # rest). stepOK b f x"
    using critical.IH mem critical.hyps(3) by (metis snd_conv)
  have reg: "registryOK b f (applyStep s c)"
    using critical.IH all by (simp add: registryOK_step)
  have "\<forall>th \<in> set (ths[i := rest]). \<forall>x \<in> set th. stepOK b f x"
  proof
    fix th assume "th \<in> set (ths[i := rest])"
    then have "th = rest \<or> th \<in> set ths"
      by (meson in_set_conv_nth insert_iff set_update_subset_insert subsetD)
    then show "\<forall>x \<in> set th. stepOK b f x" using all critical.IH by auto
  qed
  with reg show ?case by simp
qed

lemma markCommandFinished_entry:
  "getCommandKernel c session = Some k \<Longrightarrow>
   getCommandKernel (markCommandFinished session code msg now c) session =
     Some (k\<lparr>exitCode := Some code, errMsg := msg, running := False, finishedAt := Some now\<rparr>)"
  by (auto simp: getCommandKernel_def markCommandFinished_def ptrAt_def update_conv'
      split: option.splits)

lemma getCommandKernel_mem:
  "getCommandKernel c session = Some k \<Longrightarrow> (session, Some k) \<in> set (commandClientMap c)"
  by (auto simp: getCommandKernel_def ptrAt_def split: option.splits dest: map_of_SomeD)

text \<open>
  C1 (holds on the POSIX build as long as no background command fails to start).  In
  every reachable state of the interleaved command runners, every registered command
  context is either running (\<open>running\<close>, no exit code, no finish time) or finished (not
  \<open>running\<close>, exit code and finish time set), never both, with two exceptions: on the
  POSIX build a background command whose start fails is first stored not running with no
  exit code and no finish time, a third state it leaves in its next critical section;
  on the Windows build the foreground runner stores its context not running with no exit
  code and no finish time and never marks it finished.  \<open>markCommandFinished\<close> takes a
  registered context to the finished state in one critical section, setting exit code,
  error message, \<open>running\<close> and finish time together.
\<close>

theorem command_context_states:
  "(reachable b failing (c, ths) \<longrightarrow> getCommandKernel c session = Some k \<longrightarrow>
      isRunning k \<or> isFinished k \<or> (b = POSIX \<and> failing \<and> isStartFailed k) \<or>
      (b = Windows \<and> isUnmarked k)) \<and>
   (reachable POSIX False (c, ths) \<longrightarrow> getCommandKernel c session = Some k \<longrightarrow>
      isRunning k \<or> isFinished k) \<and>
   \<not> (isRunning k \<and> isFinished k) \<and>
   (getCommandKernel c session = Some k \<longrightarrow>
      (\<exists>k'. getCommandKernel (markCommandFinished session code msg now c) session = Some k' \<and>
            isFinished k' \<and> exitCode k' = Some code \<and> errMsg k' = msg \<and>
            finishedAt k' = Some now \<and> \<not> running k'))"
proof (intro conjI impI)
  assume r: "reachable b failing (c, ths)" and g: "getCommandKernel c session = Some k"
  have "registryOK b failing c" using reachable_invariant [OF r] by simp
  then have "stateOK b failing k"
    using getCommandKernel_mem [OF g] by (force simp: registryOK_def)
  then show "isRunning k \<or> isFinished k \<or> (b = POSIX \<and> failing \<and> isStartFailed k) \<or>
      (b = Windows \<and> isUnmarked k)"
    by (simp add: stateOK_def)
next
  assume r: "reachable POSIX False (c, ths)" and g: "getCommandKernel c session = Some k"
  have "registryOK POSIX False c" using reachable_invariant [OF r] by simp
  then have "stateOK POSIX False k"
    using getCommandKernel_mem [OF g] by (force simp: registryOK_def)
  then show "isRunning k \<or> isFinished k"
    by (simp add: stateOK_def)
next
  show "\<not> (isRunning k \<and> isFinished k)" by (simp add: isRunning_def isFinished_def)
next
  assume g: "getCommandKernel c session = Some k"
  show "\<exists>k'. getCommandKernel (markCommandFinished session code msg now c) session = Some k' \<and>
            isFinished k' \<and> exitCode k' = Some code \<and> errMsg k' = msg \<and>
            finishedAt k' = Some now \<and> \<not> running k'"
    using markCommandFinished_entry [OF g] by (simp add: isFinished_def)
qed

text \<open>
  A foreground \<open>sleep 1\<close> that has been stored and not yet reaped: the context is in the
  running state, and marking it finished moves it to the finished state.
\<close>

theorem command_context_states_witness:
  "reachable POSIX False
     (applyStep (hd (runCommand ''/tmp'' ''s1'' ''sleep 1''
                  \<lparr>startErr = None, childPid = 42, waitRes = WaitOK, startAt = 5, endAt = 9\<rparr>))
        NewController,
      [tl (runCommand ''/tmp'' ''s1'' ''sleep 1''
             \<lparr>startErr = None, childPid = 42, waitRes = WaitOK, startAt = 5, endAt = 9\<rparr>)]) \<and>
   getCommandKernel
     (applyStep (hd (runCommand ''/tmp'' ''s1'' ''sleep 1''
                  \<lparr>startErr = None, childPid = 42, waitRes = WaitOK, startAt = 5, endAt = 9\<rparr>))
        NewController) ''s1''
     = Some \<lparr>pid = 42, stdoutPath = ''/tmp/s1.stdout'', stderrPath = ''/tmp/s1.stderr'',
             startedAt = 5, finishedAt = None, exitCode = None, errMsg = [], running = True,
             isBackground = False, content = ''sleep 1''\<rparr> \<and>
   isRunning \<lparr>pid = 42, stdoutPath = ''/tmp/s1.stdout'', stderrPath = ''/tmp/s1.stderr'',
             startedAt = 5, finishedAt = None, exitCode = None, errMsg = [], running = True,
             isBackground = False, content = ''sleep 1''\<rparr> \<and>
   getCommandKernel
     (markCommandFinished ''s1'' 0 [] 9
        (applyStep (hd (runCommand ''/tmp'' ''s1'' ''sleep 1''
                     \<lparr>startErr = None, childPid = 42, waitRes = WaitOK, startAt = 5, endAt = 9\<rparr>))
           NewController)) ''s1''
     = Some \<lparr>pid = 42, stdoutPath = ''/tmp/s1.stdout'', stderrPath = ''/tmp/s1.stderr'',
             startedAt = 5, finishedAt = Some 9, exitCode = Some 0, errMsg = [], running = False,
             isBackground = False, content = ''sleep 1''\<rparr>"
proof -
  let ?r = "\<lparr>startErr = None, childPid = 42, waitRes = WaitOK, startAt = 5, endAt = 9\<rparr>"
  let ?steps = "runCommand ''/tmp'' ''s1'' ''sleep 1'' ?r"
  let ?k = "\<lparr>pid = 42, stdoutPath = ''/tmp/s1.stdout'', stderrPath = ''/tmp/s1.stderr'',
             startedAt = 5, finishedAt = None, exitCode = None, errMsg = [], running = True,
             isBackground = False, content = ''sleep 1''\<rparr>"
  let ?c = "applyStep (hd ?steps) NewController"
  have steps: "?steps = [Store ''s1'' ?k, MarkFinished ''s1'' 0 [] 9]"
    by (simp add: runCommand_def runCommandExit_def stdoutFileName_def stderrFileName_def)
  have "reachable POSIX False (NewController, [] @ [?steps])"
    using reachable.foreground [OF reachable.init, of POSIX False "''/tmp''" "''s1''" "''sleep 1''" ?r]
    by (simp only: foregroundRunner_def build.case)
  then have "reachable POSIX False (NewController, [?steps])" by simp
  from reachable.critical [OF this, of 0 "hd ?steps" "tl ?steps"]
  have r: "reachable POSIX False (?c, [tl ?steps])" by (simp add: steps)
  have g: "getCommandKernel ?c ''s1'' = Some ?k"
    by (simp add: steps getCommandKernel_def storeCommandKernel_def NewController_def ptrAt_def)
  have m: "getCommandKernel (markCommandFinished ''s1'' 0 [] 9 ?c) ''s1'' =
      Some (?k\<lparr>exitCode := Some 0, errMsg := [], running := False, finishedAt := Some 9\<rparr>)"
    using command_context_states [of POSIX False ?c "[tl ?steps]" "''s1''" ?k 0 "[]" 9] r g
    by (simp add: steps getCommandKernel_def storeCommandKernel_def NewController_def ptrAt_def
          markCommandFinished_def)
  have i: "isRunning ?k"
    using command_context_states [of POSIX False ?c "[tl ?steps]" "''s1''" ?k 0 "[]" 9] r g
    by (simp add: isFinished_def)
  show ?thesis using r g i m by simp
qed

text \<open>
  The claim as stated fails on the POSIX background runner: when \<open>bash\<close> cannot be started
  the context is registered with \<open>running = false\<close> while exit code and finish time are
  still nil, and stays so until the goroutine takes the lock again in
  \<open>markCommandFinished\<close>.  It fails on the Windows foreground runner as well: the context
  of a started \<open>dir\<close> is registered with \<open>running = false\<close>, exit code and finish time
  nil, and the runner has no critical section left that would change it.
\<close>

theorem command_context_states_counterexample:
  "runBackgroundCommand ''/tmp'' ''s1'' ''true''
     \<lparr>startErr = Some ''fork/exec: resource temporarily unavailable'', childPid = 0,
      waitRes = WaitOK, startAt = 5, endAt = 9\<rparr>
   = [Store ''s1''
        \<lparr>pid = - 1, stdoutPath = ''/tmp/s1.output'', stderrPath = ''/tmp/s1.output'',
         startedAt = 5, finishedAt = None, exitCode = None, errMsg = [], running = False,
         isBackground = True, content = ''true''\<rparr>,
      MarkFinished ''s1'' 255 ''fork/exec: resource temporarily unavailable'' 9] \<and>
   reachable POSIX True
     (applyStep (Store ''s1''
        \<lparr>pid = - 1, stdoutPath = ''/tmp/s1.output'', stderrPath = ''/tmp/s1.output'',
         startedAt = 5, finishedAt = None, exitCode = None, errMsg = [], running = False,
         isBackground = True, content = ''true''\<rparr>) NewController,
      [[MarkFinished ''s1'' 255 ''fork/exec: resource temporarily unavailable'' 9]]) \<and>
   getCommandKernel
     (applyStep (Store ''s1''
        \<lparr>pid = - 1, stdoutPath = ''/tmp/s1.output'', stderrPath = ''/tmp/s1.output'',
         startedAt = 5, finishedAt = None, exitCode = None, errMsg = [], running = False,
         isBackground = True, content = ''true''\<rparr>) NewController) ''s1''
     = Some \<lparr>pid = - 1, stdoutPath = ''/tmp/s1.output'', stderrPath = ''/tmp/s1.output'',
         startedAt = 5, finishedAt = None, exitCode = None, errMsg = [], running = False,
         isBackground = True, content = ''true''\<rparr> \<and>
   \<not> isRunning \<lparr>pid = - 1, stdoutPath = ''/tmp/s1.output'', stderrPath = ''/tmp/s1.output'',
         startedAt = 5, finishedAt = None, exitCode = None, errMsg = [], running = False,
         isBackground = True, content = ''true''\<rparr> \<and>
   \<not> isFinished \<lparr>pid = - 1, stdoutPath = ''/tmp/s1.output'', stderrPath = ''/tmp/s1.output'',
         startedAt = 5, finishedAt = None, exitCode = None, errMsg = [], running = False,
         isBackground = True, content = ''true''\<rparr> \<and>
   runCommandWindows ''s2'' ''dir''
     \<lparr>startErr = None, childPid = 77, waitRes = WaitOK, startAt = 5, endAt = 9\<rparr>
   = [Store ''s2''
        \<lparr>pid = 77, stdoutPath = [], stderrPath = [], startedAt = 0, finishedAt = None,
         exitCode = None, errMsg = [], running = False, isBackground = False,
         content = ''dir''\<rparr>] \<and>
   reachable Windows False
     (applyStep (Store ''s2''
        \<lparr>pid = 77, stdoutPath = [], stderrPath = [], startedAt = 0, finishedAt = None,
         exitCode = None, errMsg = [], running = False, isBackground = False,
         content = ''dir''\<rparr>) NewController, [[]]) \<and>
   getCommandKernel
     (applyStep (Store ''s2''
        \<lparr>pid = 77, stdoutPath = [], stderrPath = [], startedAt = 0, finishedAt = None,
         exitCode = None, errMsg = [], running = False, isBackground = False,
         content = ''dir''\<rparr>) NewController) ''s2''
     = Some \<lparr>pid = 77, stdoutPath = [], stderrPath = [], startedAt = 0, finishedAt = None,
         exitCode = None, errMsg = [], running = False, isBackground = False,
         content = ''dir''\<rparr> \<and>
   \<not> isRunning \<lparr>pid = 77, stdoutPath = [], stderrPath = [], startedAt = 0, finishedAt = None,
         exitCode = None, errMsg = [], running = False, isBackground = False,
         content = ''dir''\<rparr> \<and>
   \<not> isFinished \<lparr>pid = 77, stdoutPath = [], stderrPath = [], startedAt = 0, finishedAt = None,
         exitCode = None, errMsg = [], running = False, isBackground = False,
         content = ''dir''\<rparr>"
proof -
  let ?r = "\<lparr>startErr = Some ''fork/exec: resource temporarily unavailable'', childPid = 0,
      waitRes = WaitOK, startAt = 5, endAt = 9\<rparr>"
  let ?k = "\<lparr>pid = - 1, stdoutPath = ''/tmp/s1.output'', stderrPath = ''/tmp/s1.output'',
         startedAt = 5, finishedAt = None, exitCode = None, errMsg = [], running = False,
         isBackground = True, content = ''true''\<rparr>"
  let ?m = "MarkFinished ''s1'' 255 ''fork/exec: resource temporarily unavailable'' 9"
  let ?rw = "\<lparr>startErr = None, childPid = 77, waitRes = WaitOK, startAt = 5, endAt = 9\<rparr>"
  let ?kw = "\<lparr>pid = 77, stdoutPath = [], stderrPath = [], startedAt = 0, finishedAt = None,
         exitCode = None, errMsg = [], running = False, isBackground = False,
         content = ''dir''\<rparr>"
  have steps: "runBackgroundCommand ''/tmp'' ''s1'' ''true'' ?r = [Store ''s1'' ?k, ?m]"
    by (simp add: runBackgroundCommand_def combinedOutputFileName_def)
  have "reachable POSIX True (NewController, [] @ [runBackgroundCommand ''/tmp'' ''s1'' ''true'' ?r])"
    using reachable.background [OF reachable.init, of True ?r POSIX "''/tmp''" "''s1''" "''true''"]
    by (simp only: backgroundRunner_def build.case simp_thms)
  then have "reachable POSIX True (NewController, [[Store ''s1'' ?k, ?m]])" by (simp add: steps)
  from reachable.critical [OF this, of 0 "Store ''s1'' ?k" "[?m]"]
  have r: "reachable POSIX True (applyStep (Store ''s1'' ?k) NewController, [[?m]])" by simp
  have g: "getCommandKernel (applyStep (Store ''s1'' ?k) NewController) ''s1'' = Some ?k"
    by (simp add: getCommandKernel_def storeCommandKernel_def NewController_def ptrAt_def)
  have n: "\<not> isRunning ?k" "\<not> isFinished ?k" by (simp_all add: isRunning_def isFinished_def)
  have stepsw: "runCommandWindows ''s2'' ''dir'' ?rw = [Store ''s2'' ?kw]"
    by (simp add: runCommandWindows_def)
  have "reachable Windows False (NewController, [] @ [runCommandWindows ''s2'' ''dir'' ?rw])"
    using reachable.foreground [OF reachable.init, of Windows False "''/tmp''" "''s2''" "''dir''" ?rw]
    by (simp only: foregroundRunner_def build.case)
  then have "reachable Windows False (NewController, [[Store ''s2'' ?kw]])"
    by (simp add: stepsw)
  from reachable.critical [OF this, of 0 "Store ''s2'' ?kw" "[]"]
  have rw: "reachable Windows False (applyStep (Store ''s2'' ?kw) NewController, [[]])" by simp
  have gw: "getCommandKernel (applyStep (Store ''s2'' ?kw) NewController) ''s2'' = Some ?kw"
    by (simp add: getCommandKernel_def storeCommandKernel_def NewController_def ptrAt_def)
  have nw: "\<not> isRunning ?kw" "\<not> isFinished ?kw" by (simp_all add: isRunning_def isFinished_def)
  show ?thesis
    by (rule conjI [OF steps conjI [OF r conjI [OF g conjI [OF n(1) conjI [OF n(2)
          conjI [OF stepsw conjI [OF rw conjI [OF gw conjI [OF nw(1) nw(2)]]]]]]]]])
qed

subsection \<open>The tail streamer\<close>

lemma splitOn_nonempty [simp]: "splitOn P xs \<noteq> []"
  by (induction xs) auto

lemma int64_id: "- (2 ^ 63) \<le> x \<Longrightarrow> x < 2 ^ 63 \<Longrightarrow> int64 x = x"
  by (simp add: int64_def)

lemma readBytes_out:
  "fst (readBytes xs buffer pos out) =
     out @ filter (\<lambda>l. l \<noteq> [])
              (butlast ((buffer @ hd (splitOn isTerminator xs)) # tl (splitOn isTerminator xs))) \<and>
   fst (snd (readBytes xs buffer pos out)) =
     last ((buffer @ hd (splitOn isTerminator xs)) # tl (splitOn isTerminator xs))"
proof (induction xs arbitrary: buffer pos out)
  case Nil
  show ?case by simp
next
  case (Cons x xs)
  show ?case
  proof (cases "isTerminator x")
    case True
    have "(hd (splitOn isTerminator xs)) # tl (splitOn isTerminator xs) = splitOn isTerminator xs"
      by simp
    then show ?thesis using True by (simp add: Cons.IH)
  next
    case False
    then show ?thesis by (simp add: Cons.IH)
  qed
qed

lemma readBytes_pos:
  "- (2 ^ 63) \<le> pos \<Longrightarrow> pos + int (length xs) < 2 ^ 63 \<Longrightarrow>
     snd (snd (readBytes xs buffer pos out)) = pos + int (length xs)"
proof (induction xs arbitrary: buffer pos out)
  case Nil
  show ?case by simp
next
  case (Cons x xs)
  have "int64 (pos + 1) = pos + 1"
    using Cons.prems by (intro int64_id) simp_all
  moreover have "- (2 ^ 63) \<le> pos + 1" and "pos + 1 + int (length xs) < 2 ^ 63"
    using Cons.prems by simp_all
  ultimately show ?case
    using Cons.IH [of "pos + 1"] by simp
qed

lemma readBytes_lines_out:
  "fst (readBytes xs [] pos []) = completeLines xs \<and>
   fst (snd (readBytes xs [] pos [])) = partialLine xs"
  using readBytes_out [of xs "[]" pos "[]"] by (simp add: completeLines_def partialLine_def)

lemma readBytes_lines:
  assumes "- (2 ^ 63) \<le> pos" and "pos + int (length xs) < 2 ^ 63"
  shows "readBytes xs [] pos [] = (completeLines xs, partialLine xs, pos + int (length xs))"
  using readBytes_lines_out [of xs pos] readBytes_pos [OF assms, of "[]" "[]"]
  by (metis prod.collapse)

lemma splitOn_single: "splitOn P xs = [l] \<Longrightarrow> l = xs"
proof (induction xs arbitrary: l)
  case Nil
  then show ?case by simp
next
  case (Cons x xs)
  obtain m ms where s: "splitOn P xs = m # ms" by (cases "splitOn P xs") auto
  from Cons.prems s have px: "\<not> P x" and ms: "ms = []" and l: "l = x # m"
    by (auto split: if_splits)
  from Cons.IH [of m] s ms have "m = xs" by simp
  with l show ?case by simp
qed

lemma splitOn_last_suffix: "suffix (last (splitOn P xs)) xs"
proof (induction xs)
  case Nil
  show ?case by simp
next
  case (Cons x xs)
  obtain m ms where s: "splitOn P xs = m # ms" by (cases "splitOn P xs") auto
  show ?case
  proof (cases "P x \<or> ms \<noteq> []")
    case True
    then have "last (splitOn P (x # xs)) = last (splitOn P xs)" by (auto simp: s)
    with Cons.IH show ?thesis by (simp add: suffix_Cons)
  next
    case False
    then have "ms = []" and "\<not> P x" by auto
    moreover from this s have "m = xs" using splitOn_single [of P xs m] by simp
    ultimately show ?thesis by (simp add: s)
  qed
qed

lemma partialLine_suffix: "suffix (partialLine xs) xs"
  by (simp add: partialLine_def splitOn_last_suffix)

lemma partialLine_length: "length (partialLine xs) \<le> length xs"
  using partialLine_suffix by (rule suffix_length_le)

lemma splitOn_append:
  "splitOn P (xs @ ys) =
     butlast (splitOn P xs) @ [last (splitOn P xs) @ hd (splitOn P ys)] @ tl (splitOn P ys)"
proof (induction xs)
  case Nil
  show ?case by simp
next
  case (Cons x xs)
  obtain m ms where s: "splitOn P xs = m # ms" by (cases "splitOn P xs") auto
  show ?case
  proof (cases "P x")
    case True
    then show ?thesis using Cons.IH by simp
  next
    case False
    show ?thesis
    proof (cases ms)
      case Nil
      then show ?thesis using False Cons.IH s by simp
    next
      case (Cons a as)
      then show ?thesis using False Cons.IH s by simp
    qed
  qed
qed

lemma splitOn_last_free: "x \<in> set (last (splitOn P xs)) \<Longrightarrow> \<not> P x"
proof (induction xs)
  case Nil
  then show ?case by simp
next
  case (Cons y ys)
  obtain m ms where s: "splitOn P ys = m # ms" by (cases "splitOn P ys") auto
  show ?case
  proof (cases "P y \<or> ms \<noteq> []")
    case True
    then have "last (splitOn P (y # ys)) = last (splitOn P ys)" by (auto simp: s)
    with Cons show ?thesis by simp
  next
    case False
    then show ?thesis using Cons s by auto
  qed
qed

lemma splitOn_free: "\<forall>x \<in> set xs. \<not> P x \<Longrightarrow> splitOn P xs = [xs]"
  by (induction xs) auto

lemma allLines_complete_partial: "allLines text = completeLines text @ allLines (partialLine text)"
proof -
  have "splitOn isTerminator (partialLine text) = [partialLine text]"
    by (rule splitOn_free) (auto simp: partialLine_def dest: splitOn_last_free)
  moreover have "splitOn isTerminator text =
      butlast (splitOn isTerminator text) @ [last (splitOn isTerminator text)]"
    by simp
  ultimately show ?thesis
    unfolding allLines_def completeLines_def partialLine_def
    by (metis filter_append)
qed

lemma allLines_resume:
  "completeLines rest @ allLines (partialLine rest @ appended) = allLines (rest @ appended)"
proof -
  have p: "splitOn isTerminator (partialLine rest) = [partialLine rest]"
    by (rule splitOn_free) (auto simp: partialLine_def dest: splitOn_last_free)
  have "splitOn isTerminator (partialLine rest @ appended) =
      [partialLine rest @ hd (splitOn isTerminator appended)] @ tl (splitOn isTerminator appended)"
    by (simp add: splitOn_append [of _ "partialLine rest"] p)
  moreover have "splitOn isTerminator (rest @ appended) =
      butlast (splitOn isTerminator rest) @
      [partialLine rest @ hd (splitOn isTerminator appended)] @ tl (splitOn isTerminator appended)"
    by (simp add: splitOn_append [of _ rest] partialLine_def)
  ultimately show ?thesis by (simp add: allLines_def completeLines_def)
qed

lemma allLines_partial:
  "allLines (partialLine text) = (if partialLine text \<noteq> [] then [partialLine text] else [])"
proof -
  have "splitOn isTerminator (partialLine text) = [partialLine text]"
    by (rule splitOn_free) (auto simp: partialLine_def dest: splitOn_last_free)
  then show ?thesis by (simp add: allLines_def)
qed

lemma readFromPos_periodic:
  assumes "seekOK maxOffset startPos" and "int (length f) \<le> maxOffset" and "maxOffset < 2 ^ 63"
  shows "readFromPos maxOffset False (Some f) startPos False =
     (completeLines (drop (nat startPos) f),
      if partialLine (drop (nat startPos) f) \<noteq> []
      then int (length f) - int (length (partialLine (drop (nat startPos) f)))
      else max startPos (int (length f)))"
proof -
  let ?rest = "drop (nat startPos) f"
  have pos: "0 \<le> startPos" "startPos \<le> maxOffset"
    using assms(1) by (simp_all add: seekOK_def)
  have len: "startPos + int (length ?rest) = max startPos (int (length f))"
    using pos by auto
  have rb: "readBytes ?rest [] startPos [] =
      (completeLines ?rest, partialLine ?rest, max startPos (int (length f)))"
    using readBytes_lines [of startPos ?rest] pos assms(2,3) len by simp
  have le: "length (partialLine ?rest) \<le> length ?rest"
    by (rule partialLine_length)
  have ne: "max startPos (int (length f)) = int (length f)" if "partialLine ?rest \<noteq> []"
  proof -
    have "0 < length (partialLine ?rest)" using that by simp
    moreover have "length (partialLine ?rest) \<le> length f - nat startPos" using le by simp
    ultimately have "nat startPos < length f" by linarith
    then show ?thesis using pos by simp
  qed
  have "int64 (int (length f) - int (length (partialLine ?rest))) =
      int (length f) - int (length (partialLine ?rest))"
    using le assms(2,3) by (intro int64_id) auto
  then show ?thesis
    using ne assms(1) by (simp add: readFromPos_def rb Let_def)
qed

lemma readFromPos_final:
  assumes "seekOK maxOffset startPos" and "int (length f) \<le> maxOffset" and "maxOffset < 2 ^ 63"
  shows "readFromPos maxOffset False (Some f) startPos True =
     (allLines (drop (nat startPos) f), max startPos (int (length f)))"
proof -
  let ?rest = "drop (nat startPos) f"
  have pos: "0 \<le> startPos" "startPos \<le> maxOffset"
    using assms(1) by (simp_all add: seekOK_def)
  have len: "startPos + int (length ?rest) = max startPos (int (length f))"
    using pos by auto
  have rb: "readBytes ?rest [] startPos [] =
      (completeLines ?rest, partialLine ?rest, max startPos (int (length f)))"
    using readBytes_lines [of startPos ?rest] pos assms(2,3) len by simp
  show ?thesis
    using assms(1)
    by (simp add: readFromPos_def rb Let_def allLines_complete_partial [of ?rest] allLines_partial)
qed

lemma readFromPos_failed_seek:
  assumes "\<not> seekOK maxOffset startPos"
  shows "fst (readFromPos maxOffset False (Some f) startPos False) = completeLines f"
    and "fst (readFromPos maxOffset False (Some f) startPos True) = allLines f"
  using assms readBytes_lines_out [of f startPos]
  by (simp_all add: readFromPos_def Let_def case_prod_unfold
        allLines_complete_partial [of f] allLines_partial)

lemma partial_offset:
  "drop (length f - length (partialLine (drop n f))) f = partialLine (drop n f)"
proof -
  have "suffix (partialLine (drop n f)) f"
    using partialLine_suffix [of "drop n f"] suffix_drop suffix_order.trans by blast
  then obtain pre where "f = pre @ partialLine (drop n f)" by (auto simp: suffix_def)
  then show ?thesis by (metis add_diff_cancel_right' append_eq_conv_conj length_append)
qed

lemma appendOnly_prefix: "appendOnly (f # fs) final \<Longrightarrow> prefix f final"
proof (induction fs arbitrary: f)
  case Nil
  then show ?case by simp
next
  case (Cons g gs)
  then have "prefix f g" and "prefix g final" by auto
  then show ?case by (rule prefix_order.trans)
qed

lemma tailLoop_lines:
  assumes "appendOnly fs final" and "pos \<le> length (case fs of [] \<Rightarrow> final | g # gs \<Rightarrow> g)"
    and "int (length final) \<le> maxOffset" and "maxOffset < 2 ^ 63"
  shows "tailLoop maxOffset (map Some fs) (Some final) (int pos) = allLines (drop pos final)"
  using assms(1,2)
proof (induction fs arbitrary: pos)
  case Nil
  then have "seekOK maxOffset (int pos)" using assms(3) by (simp add: seekOK_def)
  then show ?case using assms(3,4) by (simp add: readFromPos_final)
next
  case (Cons f fs)
  let ?rest = "drop pos f"
  let ?n = "length f - length (partialLine ?rest)"
  have pos: "pos \<le> length f" using Cons.prems(2) by simp
  have le: "length (partialLine ?rest) \<le> length f"
    using partialLine_length [of ?rest] by simp
  obtain appended where fin: "final = f @ appended"
    using appendOnly_prefix [OF Cons.prems(1)] by (auto simp: prefix_def)
  have flen: "int (length f) \<le> maxOffset" using assms(3) by (simp add: fin)
  have ok: "seekOK maxOffset (int pos)" using pos flen by (simp add: seekOK_def)
  note per = readFromPos_periodic [OF ok flen assms(4)]
  have new: "snd (readFromPos maxOffset False (Some f) (int pos) False) = int ?n"
    using pos le by (auto simp: per)
  have out: "fst (readFromPos maxOffset False (Some f) (int pos) False) = completeLines ?rest"
    by (simp add: per)
  have pre: "prefix f (case fs of [] \<Rightarrow> final | g # gs \<Rightarrow> g)" and rest: "appendOnly fs final"
    using Cons.prems(1) by auto
  have "?n \<le> length (case fs of [] \<Rightarrow> final | g # gs \<Rightarrow> g)"
    using prefix_length_le [OF pre] by simp
  from Cons.IH [OF rest this]
  have ih: "tailLoop maxOffset (map Some fs) (Some final) (int ?n) = allLines (drop ?n final)" .
  have d1: "drop ?n final = partialLine ?rest @ appended"
    by (simp add: fin partial_offset)
  have d2: "drop pos final = ?rest @ appended"
    using pos by (simp add: fin)
  have "tailLoop maxOffset (map Some (f # fs)) (Some final) (int pos) =
      completeLines ?rest @ tailLoop maxOffset (map Some fs) (Some final) (int ?n)"
    using new out by (simp add: case_prod_unfold)
  then show ?case by (simp add: ih d1 d2 allLines_resume)
qed

text \<open>
  C2 (holds for the read positions the seek accepts, fails outside them).  Let
  \<open>maxOffset\<close> be the largest offset the file system accepts, below \<open>2 ^ 63\<close>, and \<open>f\<close> a
  file content no longer than that.  For every read position from 0 to \<open>maxOffset\<close>, with
  \<open>rest\<close> the bytes from the position on: a periodic read emits exactly the non-empty
  segments of \<open>rest\<close> that are closed by a line feed or carriage return, never the
  trailing partial line, and when that partial line is non-empty it returns the offset at
  which it starts, so that the bytes from the returned offset on are the partial line;
  the final read emits the same lines followed by the non-empty partial line, once, and
  returns the end of the file.  For every other read position the seek fails, its error
  is ignored, and both reads emit the lines of the whole file from offset 0.  Over a file
  that is only appended to, all reads of \<open>tailStdPipe\<close>, which starts at position 0 and
  continues from the returned positions, together emit every non-empty segment of the
  final file exactly once, in order.
\<close>

theorem readFromPos_partial_line:
  assumes "int (length f) \<le> maxOffset" and "maxOffset < 2 ^ 63"
  shows "(0 \<le> startPos \<and> startPos \<le> maxOffset \<longrightarrow>
           readFromPos maxOffset False (Some f) startPos False =
             (completeLines (drop (nat startPos) f),
              if partialLine (drop (nat startPos) f) \<noteq> []
              then int (length f) - int (length (partialLine (drop (nat startPos) f)))
              else max startPos (int (length f))) \<and>
           (partialLine (drop (nat startPos) f) \<noteq> [] \<longrightarrow>
              drop (nat (snd (readFromPos maxOffset False (Some f) startPos False))) f =
                partialLine (drop (nat startPos) f)) \<and>
           readFromPos maxOffset False (Some f) startPos True =
             (completeLines (drop (nat startPos) f) @
                (if partialLine (drop (nat startPos) f) \<noteq> []
                 then [partialLine (drop (nat startPos) f)] else []),
              max startPos (int (length f)))) \<and>
         (startPos < 0 \<or> maxOffset < startPos \<longrightarrow>
           fst (readFromPos maxOffset False (Some f) startPos False) = completeLines f \<and>
           fst (readFromPos maxOffset False (Some f) startPos True) =
             completeLines f @ (if partialLine f \<noteq> [] then [partialLine f] else [])) \<and>
         (\<forall>b \<in> set (partialLine (drop (nat startPos) f)). b \<noteq> CHR 0x0A \<and> b \<noteq> CHR 0x0D) \<and>
         (\<forall>ticks. appendOnly ticks f \<longrightarrow>
            tailStdPipe maxOffset (map Some ticks) (Some f) = allLines f)"
proof -
  let ?rest = "drop (nat startPos) f"
  have a: "readFromPos maxOffset False (Some f) startPos False =
           (completeLines ?rest,
            if partialLine ?rest \<noteq> [] then int (length f) - int (length (partialLine ?rest))
            else max startPos (int (length f)))"
    if "seekOK maxOffset startPos"
    using that assms by (rule readFromPos_periodic)
  have b: "\<forall>b \<in> set (partialLine ?rest). b \<noteq> CHR 0x0A \<and> b \<noteq> CHR 0x0D"
    using splitOn_last_free [of _ isTerminator ?rest]
    by (auto simp: partialLine_def isTerminator_def)
  have le: "length (partialLine ?rest) \<le> length f"
    using partialLine_length [of ?rest] by simp
  have c: "drop (nat (snd (readFromPos maxOffset False (Some f) startPos False))) f =
      partialLine ?rest"
    if "seekOK maxOffset startPos" and "partialLine ?rest \<noteq> []"
  proof -
    have "nat (snd (readFromPos maxOffset False (Some f) startPos False)) =
        length f - length (partialLine ?rest)"
      using le that(2) by (simp add: a [OF that(1)] nat_diff_distrib')
    then show ?thesis by (simp add: partial_offset)
  qed
  have d: "readFromPos maxOffset False (Some f) startPos True =
           (completeLines ?rest @ (if partialLine ?rest \<noteq> [] then [partialLine ?rest] else []),
            max startPos (int (length f)))"
    if "seekOK maxOffset startPos"
    using readFromPos_final [OF that assms]
    by (simp only: allLines_complete_partial [of ?rest] allLines_partial)
  have ok: "0 \<le> startPos \<and> startPos \<le> maxOffset \<longrightarrow>
      readFromPos maxOffset False (Some f) startPos False =
           (completeLines ?rest,
            if partialLine ?rest \<noteq> [] then int (length f) - int (length (partialLine ?rest))
            else max startPos (int (length f))) \<and>
      (partialLine ?rest \<noteq> [] \<longrightarrow>
         drop (nat (snd (readFromPos maxOffset False (Some f) startPos False))) f =
           partialLine ?rest) \<and>
      readFromPos maxOffset False (Some f) startPos True =
           (completeLines ?rest @ (if partialLine ?rest \<noteq> [] then [partialLine ?rest] else []),
            max startPos (int (length f)))"
  proof
    assume "0 \<le> startPos \<and> startPos \<le> maxOffset"
    then have s: "seekOK maxOffset startPos" by (simp add: seekOK_def)
    show "readFromPos maxOffset False (Some f) startPos False =
           (completeLines ?rest,
            if partialLine ?rest \<noteq> [] then int (length f) - int (length (partialLine ?rest))
            else max startPos (int (length f))) \<and>
      (partialLine ?rest \<noteq> [] \<longrightarrow>
         drop (nat (snd (readFromPos maxOffset False (Some f) startPos False))) f =
           partialLine ?rest) \<and>
      readFromPos maxOffset False (Some f) startPos True =
           (completeLines ?rest @ (if partialLine ?rest \<noteq> [] then [partialLine ?rest] else []),
            max startPos (int (length f)))"
      using a [OF s] c [OF s] d [OF s] by (intro conjI impI)
  qed
  have bad: "startPos < 0 \<or> maxOffset < startPos \<longrightarrow>
      fst (readFromPos maxOffset False (Some f) startPos False) = completeLines f \<and>
      fst (readFromPos maxOffset False (Some f) startPos True) =
        completeLines f @ (if partialLine f \<noteq> [] then [partialLine f] else [])"
  proof
    assume "startPos < 0 \<or> maxOffset < startPos"
    then have s: "\<not> seekOK maxOffset startPos" by (auto simp: seekOK_def)
    show "fst (readFromPos maxOffset False (Some f) startPos False) = completeLines f \<and>
      fst (readFromPos maxOffset False (Some f) startPos True) =
        completeLines f @ (if partialLine f \<noteq> [] then [partialLine f] else [])"
      using readFromPos_failed_seek [OF s, of f]
      by (simp only: allLines_complete_partial [of f] allLines_partial simp_thms)
  qed
  have e: "\<forall>ticks. appendOnly ticks f \<longrightarrow>
      tailStdPipe maxOffset (map Some ticks) (Some f) = allLines f"
  proof (intro allI impI)
    fix ticks assume ap: "appendOnly ticks f"
    from tailLoop_lines [OF ap _ assms, of 0]
    show "tailStdPipe maxOffset (map Some ticks) (Some f) = allLines f"
      by (simp add: tailStdPipe_def)
  qed
  show ?thesis by (rule conjI [OF ok conjI [OF bad conjI [OF b e]]])
qed

text \<open>
  A carriage-return progress bar with an unfinished last line on a file system whose
  largest offset is \<open>2 ^ 44 - 1\<close>, read from offset 0: the periodic read emits the two
  finished lines and returns offset 8, where \<open>30\<close> starts; the final read emits \<open>30\<close> as
  well.  Read from position \<open>- 3\<close>, both reads emit the lines of the whole file.
\<close>

theorem readFromPos_partial_line_witness:
  "int (length [CHR ''1'', CHR ''0'', CHR ''%'', CHR 0x0D,
                CHR ''2'', CHR ''0'', CHR ''%'', CHR 0x0D, CHR ''3'', CHR ''0''])
     \<le> demoMaxOffset \<and> demoMaxOffset < 2 ^ 63 \<and>
   (0::int) \<le> 0 \<and> 0 \<le> demoMaxOffset \<and> (- 3 :: int) < 0 \<and>
   readFromPos demoMaxOffset False (Some [CHR ''1'', CHR ''0'', CHR ''%'', CHR 0x0D,
                            CHR ''2'', CHR ''0'', CHR ''%'', CHR 0x0D, CHR ''3'', CHR ''0''])
     0 False = ([''10%'', ''20%''], 8) \<and>
   drop 8 [CHR ''1'', CHR ''0'', CHR ''%'', CHR 0x0D,
           CHR ''2'', CHR ''0'', CHR ''%'', CHR 0x0D, CHR ''3'', CHR ''0''] = ''30'' \<and>
   readFromPos demoMaxOffset False (Some [CHR ''1'', CHR ''0'', CHR ''%'', CHR 0x0D,
                            CHR ''2'', CHR ''0'', CHR ''%'', CHR 0x0D, CHR ''3'', CHR ''0''])
     0 True = ([''10%'', ''20%'', ''30''], 10) \<and>
   fst (readFromPos demoMaxOffset False (Some [CHR ''1'', CHR ''0'', CHR ''%'', CHR 0x0D,
                            CHR ''2'', CHR ''0'', CHR ''%'', CHR 0x0D, CHR ''3'', CHR ''0''])
     (- 3) False) = [''10%'', ''20%''] \<and>
   appendOnly [[CHR ''1'', CHR ''0'', CHR ''%'', CHR 0x0D, CHR ''2'']]
     [CHR ''1'', CHR ''0'', CHR ''%'', CHR 0x0D,
      CHR ''2'', CHR ''0'', CHR ''%'', CHR 0x0D, CHR ''3'', CHR ''0''] \<and>
   tailStdPipe demoMaxOffset [Some [CHR ''1'', CHR ''0'', CHR ''%'', CHR 0x0D, CHR ''2'']]
     (Some [CHR ''1'', CHR ''0'', CHR ''%'', CHR 0x0D,
            CHR ''2'', CHR ''0'', CHR ''%'', CHR 0x0D, CHR ''3'', CHR ''0''])
     = [''10%'', ''20%'', ''30'']"
proof -
  let ?f = "[CHR ''1'', CHR ''0'', CHR ''%'', CHR 0x0D,
             CHR ''2'', CHR ''0'', CHR ''%'', CHR 0x0D, CHR ''3'', CHR ''0'']"
  let ?t = "[CHR ''1'', CHR ''0'', CHR ''%'', CHR 0x0D, CHR ''2'']"
  have c: "completeLines ?f = [''10%'', ''20%'']" and p: "partialLine ?f = ''30''"
    and l: "allLines ?f = [''10%'', ''20%'', ''30'']"
    by (simp_all add: completeLines_def partialLine_def allLines_def isTerminator_def)
  have ap: "appendOnly [?t] ?f"
    by simp
  have m1: "int (length ?f) \<le> demoMaxOffset" and m2: "demoMaxOffset < 2 ^ 63"
    and m3: "0 \<le> demoMaxOffset"
    by (simp_all add: demoMaxOffset_def)
  note inst = readFromPos_partial_line [OF m1 m2, of 0]
  note neg = readFromPos_partial_line [OF m1 m2, of "- 3"]
  have "tailStdPipe demoMaxOffset (map Some [?t]) (Some ?f) = allLines ?f"
    using inst ap by blast
  then have t: "tailStdPipe demoMaxOffset [Some ?t] (Some ?f) = [''10%'', ''20%'', ''30'']"
    by (simp only: l list.map)
  have d: "drop 8 ?f = ''30''" by simp
  have r1: "readFromPos demoMaxOffset False (Some ?f) 0 False = ([''10%'', ''20%''], 8)"
    using inst m3 by (simp add: c p)
  have r2: "readFromPos demoMaxOffset False (Some ?f) 0 True = ([''10%'', ''20%'', ''30''], 10)"
    using inst m3 by (simp add: c p)
  have r3: "fst (readFromPos demoMaxOffset False (Some ?f) (- 3) False) = [''10%'', ''20%'']"
    using neg by (simp add: c)
  from m1 m2 m3 r1 d r2 r3 ap t show ?thesis by (intro conjI) simp_all
qed

text \<open>
  C2 as stated, for every read position, fails outside the offsets the seek accepts.
  On the file \<open>xy\<close>, line feed, \<open>abc\<close> the trailing partial line \<open>abc\<close> starts at offset 3.
  Read from position \<open>- 3\<close> the seek fails, the bytes are read from offset 0 while the
  position is counted from \<open>- 3\<close>, and the periodic read returns 0, not 3; the next read
  from there emits \<open>xy\<close> a second time.  Read from position \<open>2 ^ 62\<close>, beyond the largest
  offset, the periodic read again emits \<open>xy\<close> from offset 0 and returns \<open>2 ^ 62 + 3\<close>.
\<close>

theorem readFromPos_counterexample:
  "readFromPos demoMaxOffset False (Some ''xy\<newline>abc'') (- 3) False = ([''xy''], 0) \<and>
   partialLine ''xy\<newline>abc'' = ''abc'' \<and>
   drop 3 ''xy\<newline>abc'' = ''abc'' \<and>
   drop 0 ''xy\<newline>abc'' \<noteq> ''abc'' \<and>
   tailLoop demoMaxOffset [Some ''xy\<newline>abc''] (Some ''xy\<newline>abc'') (- 3) =
     [''xy'', ''xy'', ''abc''] \<and>
   readFromPos demoMaxOffset False (Some ''xy\<newline>abc'') 4611686018427387904 False =
     ([''xy''], 4611686018427387907)"
  by (simp add: readFromPos_def seekOK_def demoMaxOffset_def int64_def partialLine_def
        isTerminator_def Let_def)

subsection \<open>Seeking in the output of a background command\<close>

text \<open>
  C3 (holds for the cursors the seek accepts, fails outside them).  Let \<open>maxOffset\<close> be
  the largest offset the file system accepts.  For every registered background command
  whose combined output file can be opened, and every cursor from 0 to \<open>maxOffset\<close>,
  \<open>SeekBackgroundCommandOutput\<close> returns bytes and a new cursor with new cursor \<open>\<ge>\<close>
  cursor, the bytes being the slice of the file from cursor to new cursor; a second call
  with the returned cursor on the unchanged file returns no bytes and the same cursor.
  For every other cursor, negative or beyond \<open>maxOffset\<close>, it returns the seek error.
\<close>

theorem SeekBackgroundCommandOutput_slice:
  assumes "commandSnapshot c session = Some kern" and "isBackground kern"
    and "fs (stdoutPath kern) = Some file" and "int (length file) \<le> maxOffset"
  shows "(0 \<le> cursor \<and> cursor \<le> maxOffset \<longrightarrow>
          (\<exists>bytes newCursor.
             SeekBackgroundCommandOutput maxOffset c fs session cursor = Inr (bytes, newCursor) \<and>
             cursor \<le> newCursor \<and>
             bytes = fileSlice file cursor newCursor \<and>
             newCursor = max cursor (int (length file)) \<and>
             SeekBackgroundCommandOutput maxOffset c fs session newCursor = Inr ([], newCursor))) \<and>
         (cursor < 0 \<or> maxOffset < cursor \<longrightarrow>
            SeekBackgroundCommandOutput maxOffset c fs session cursor = Inl SeekError)"
proof (intro conjI impI)
  assume range: "0 \<le> cursor \<and> cursor \<le> maxOffset"
  let ?data = "drop (nat cursor) file"
  let ?new = "cursor + int (length ?data)"
  have ok: "seekOK maxOffset cursor" using range by (simp add: seekOK_def)
  have r: "SeekBackgroundCommandOutput maxOffset c fs session cursor = Inr (?data, ?new)"
    using assms(1-3) ok by (simp add: SeekBackgroundCommandOutput_def)
  have m: "?new = max cursor (int (length file))"
    using range by auto
  have s: "?data = fileSlice file cursor ?new"
    by (simp add: fileSlice_def)
  have ok': "seekOK maxOffset ?new"
    using range assms(4) by (simp only: m seekOK_def) simp
  have "length file \<le> nat (max cursor (int (length file)))"
    by linarith
  then have "drop (nat ?new) file = []"
    by (simp only: m drop_all)
  then have again: "SeekBackgroundCommandOutput maxOffset c fs session ?new = Inr ([], ?new)"
    using assms(1-3) ok' by (simp add: SeekBackgroundCommandOutput_def)
  show "\<exists>bytes newCursor.
          SeekBackgroundCommandOutput maxOffset c fs session cursor = Inr (bytes, newCursor) \<and>
          cursor \<le> newCursor \<and>
          bytes = fileSlice file cursor newCursor \<and>
          newCursor = max cursor (int (length file)) \<and>
          SeekBackgroundCommandOutput maxOffset c fs session newCursor = Inr ([], newCursor)"
  proof (intro exI conjI)
    show "SeekBackgroundCommandOutput maxOffset c fs session cursor = Inr (?data, ?new)" by (rule r)
    show "cursor \<le> ?new" by simp
    show "?data = fileSlice file cursor ?new" by (rule s)
    show "?new = max cursor (int (length file))" by (rule m)
    show "SeekBackgroundCommandOutput maxOffset c fs session ?new = Inr ([], ?new)" by (rule again)
  qed
next
  assume "cursor < 0 \<or> maxOffset < cursor"
  then have "\<not> seekOK maxOffset cursor" by (auto simp: seekOK_def)
  then show "SeekBackgroundCommandOutput maxOffset c fs session cursor = Inl SeekError"
    using assms(1-3) by (simp add: SeekBackgroundCommandOutput_def)
qed

text \<open>
  The finished background \<open>printf\<close> on a file system whose largest offset is
  \<open>2 ^ 44 - 1\<close>: reading from cursor 6 gives the second line and cursor 12, and reading
  again from 12 gives nothing; reading from cursor \<open>- 5\<close> and from cursor \<open>2 ^ 44\<close> gives
  the seek error.
\<close>

theorem SeekBackgroundCommandOutput_slice_witness:
  "commandSnapshot demoBackground ''s1''
     = Some \<lparr>pid = 7, stdoutPath = ''/tmp/s1.output'', stderrPath = ''/tmp/s1.output'',
         startedAt = 1, finishedAt = Some 2, exitCode = Some 0, errMsg = [], running = False,
         isBackground = True, content = ''printf''\<rparr> \<and>
   demoOutputFS ''/tmp/s1.output'' = Some ''line1\<newline>line2\<newline>'' \<and>
   int (length ''line1\<newline>line2\<newline>'') \<le> demoMaxOffset \<and>
   (0::int) \<le> 6 \<and> 6 \<le> demoMaxOffset \<and> (- 5 :: int) < 0 \<and> demoMaxOffset < 17592186044416 \<and>
   SeekBackgroundCommandOutput demoMaxOffset demoBackground demoOutputFS ''s1'' 6
     = Inr (''line2\<newline>'', 12) \<and>
   SeekBackgroundCommandOutput demoMaxOffset demoBackground demoOutputFS ''s1'' 12 = Inr ([], 12) \<and>
   SeekBackgroundCommandOutput demoMaxOffset demoBackground demoOutputFS ''s1'' (- 5)
     = Inl SeekError \<and>
   SeekBackgroundCommandOutput demoMaxOffset demoBackground demoOutputFS ''s1'' 17592186044416
     = Inl SeekError"
proof -
  let ?k = "\<lparr>pid = 7, stdoutPath = ''/tmp/s1.output'', stderrPath = ''/tmp/s1.output'',
         startedAt = 1, finishedAt = Some 2, exitCode = Some 0, errMsg = [], running = False,
         isBackground = True, content = ''printf''\<rparr>"
  let ?file = "''line1\<newline>line2\<newline>''"
  have snap: "commandSnapshot demoBackground ''s1'' = Some ?k"
    by (simp add: demoBackground_def commandSnapshot_def storeCommandKernel_def NewController_def)
  have bg: "isBackground ?k" and content: "demoOutputFS (stdoutPath ?k) = Some ?file"
    and len: "int (length ?file) \<le> demoMaxOffset"
    and pos: "(0::int) \<le> 6 \<and> 6 \<le> demoMaxOffset"
    and neg: "(- 5 :: int) < 0 \<or> demoMaxOffset < - 5"
    and big: "(17592186044416 :: int) < 0 \<or> demoMaxOffset < 17592186044416"
    by (simp_all add: demoOutputFS_def demoMaxOffset_def)
  note inst = SeekBackgroundCommandOutput_slice
    [of demoBackground "''s1''" ?k demoOutputFS ?file demoMaxOffset, OF snap bg content len]
  from inst [of 6] pos
  obtain bytes newCursor where
    r: "SeekBackgroundCommandOutput demoMaxOffset demoBackground demoOutputFS ''s1'' 6
          = Inr (bytes, newCursor)" and
    b: "bytes = fileSlice ?file 6 newCursor" and
    n: "newCursor = max 6 (int (length ?file))" and
    a: "SeekBackgroundCommandOutput demoMaxOffset demoBackground demoOutputFS ''s1'' newCursor
          = Inr ([], newCursor)"
    by blast
  have n12: "newCursor = 12" using n by simp
  have b2: "bytes = ''line2\<newline>''" using b by (simp add: n12 fileSlice_def)
  have e1: "SeekBackgroundCommandOutput demoMaxOffset demoBackground demoOutputFS ''s1'' (- 5)
      = Inl SeekError"
    using inst [of "- 5"] neg by blast
  have e2: "SeekBackgroundCommandOutput demoMaxOffset demoBackground demoOutputFS ''s1''
      17592186044416 = Inl SeekError"
    using inst [of 17592186044416] big by blast
  have m: "demoMaxOffset < 17592186044416" by (simp add: demoMaxOffset_def)
  from r [unfolded n12 b2] a [unfolded n12] e1 e2 snap content len pos m
  show ?thesis by (intro conjI) simp_all
qed

text \<open>
  The claim as stated, for every cursor value, fails at the cursors the seek refuses:
  at a negative cursor, which the handler's \<open>QueryInt64\<close> lets through, and at the
  largest 64-bit cursor, an error is returned instead of bytes and a cursor.
\<close>

theorem SeekBackgroundCommandOutput_counterexample:
  "SeekBackgroundCommandOutput demoMaxOffset demoBackground demoOutputFS ''s1'' (- 1)
     = Inl SeekError \<and>
   SeekBackgroundCommandOutput demoMaxOffset demoBackground demoOutputFS ''s1''
     9223372036854775807 = Inl SeekError"
  by (simp add: SeekBackgroundCommandOutput_def demoBackground_def demoOutputFS_def
        commandSnapshot_def storeCommandKernel_def NewController_def seekOK_def
        demoMaxOffset_def)

subsection \<open>Listing kernel contexts\<close>

lemma update_fresh: "k \<notin> fst ` set al \<Longrightarrow> AList.update k v al = al @ [(k, v)]"
  by (induction al) auto

lemma applyOp_map:
  "sessID (opSession x) \<notin> fst ` set (jupyterClientMap c) \<Longrightarrow>
   jupyterClientMap (applyOp x c) = jupyterClientMap c @ [opEntry x]"
  by (cases x)
     (simp_all add: CreateContext_def createDefaultLanguageContext_def storeJupyterKernel_def
        opEntry_def update_fresh)

lemma runOps_map:
  "distinct (map (sessID \<circ> opSession) ops) \<Longrightarrow>
   set (map (sessID \<circ> opSession) ops) \<inter> fst ` set (jupyterClientMap c) = {} \<Longrightarrow>
   jupyterClientMap (runOps ops c) = jupyterClientMap c @ map opEntry ops"
proof (induction ops arbitrary: c)
  case Nil
  then show ?case by simp
next
  case (Cons x xs)
  have fresh: "sessID (opSession x) \<notin> fst ` set (jupyterClientMap c)"
    using Cons.prems(2) by auto
  have step: "jupyterClientMap (applyOp x c) = jupyterClientMap c @ [opEntry x]"
    using fresh by (rule applyOp_map)
  have "set (map (sessID \<circ> opSession) xs) \<inter> fst ` set (jupyterClientMap (applyOp x c)) = {}"
    using Cons.prems by (auto simp: step opEntry_def)
  with Cons.IH [of "applyOp x c"] Cons.prems(1) step show ?case by simp
qed

lemma applyOp_default:
  "map_of (defaultLanguageJupyterSessions (applyOp x c)) L =
     (if isImplicit x \<and> opLanguage x = L then Some (sessID (opSession x))
      else map_of (defaultLanguageJupyterSessions c) L)"
  by (cases x)
     (simp_all add: CreateContext_def createDefaultLanguageContext_def storeJupyterKernel_def
        update_conv')

lemma runOps_default:
  "map_of (defaultLanguageJupyterSessions (runOps ops c)) L =
     (case filter (\<lambda>x. isImplicit x \<and> opLanguage x = L) ops of
        [] \<Rightarrow> map_of (defaultLanguageJupyterSessions c) L
      | ds \<Rightarrow> Some (sessID (opSession (last ds))))"
proof (induction ops arbitrary: c)
  case Nil
  then show ?case by simp
next
  case (Cons x xs)
  show ?case
    by (simp add: Cons.IH applyOp_default split: list.splits)
qed

lemma kernelContexts_ops:
  "kernelContexts (map opEntry ops) L =
     map (\<lambda>x. \<lparr>ID = sessID (opSession x), Language = L\<rparr>) (filter (\<lambda>x. opLanguage x = L) ops)"
  by (induction ops) (simp_all add: kernelContexts_def opEntry_def)

lemma listLanguageContexts_ops:
  assumes "distinct (map (sessID \<circ> opSession) ops)"
  shows "listLanguageContexts (runOps ops NewController) L =
     map (\<lambda>x. \<lparr>ID = sessID (opSession x), Language = L\<rparr>) (filter (\<lambda>x. opLanguage x = L) ops) @
     (case filter (\<lambda>x. isImplicit x \<and> opLanguage x = L) ops of
        [] \<Rightarrow> []
      | ds \<Rightarrow> if sessID (opSession (last ds)) \<noteq> []
               then [\<lparr>ID = sessID (opSession (last ds)), Language = L\<rparr>] else [])"
proof -
  have m: "jupyterClientMap (runOps ops NewController) = map opEntry ops"
    using runOps_map [OF assms, of NewController] by (simp add: NewController_def)
  have d: "strAt (defaultLanguageJupyterSessions (runOps ops NewController)) L =
      (case filter (\<lambda>x. isImplicit x \<and> opLanguage x = L) ops of
         [] \<Rightarrow> [] | ds \<Rightarrow> sessID (opSession (last ds)))"
    by (simp add: strAt_def runOps_default NewController_def split: list.splits)
  have k: "kernelContexts (jupyterClientMap (runOps ops NewController)) L =
      map (\<lambda>x. \<lparr>ID = sessID (opSession x), Language = L\<rparr>) (filter (\<lambda>x. opLanguage x = L) ops)"
    by (simp add: m kernelContexts_ops)
  show ?thesis
    unfolding listLanguageContexts_def Let_def k d
    by (simp split: list.splits)
qed

lemma filter_split_length:
  "length (filter (\<lambda>x. opLanguage x = L) ops) =
     length (filter (\<lambda>x. \<not> isImplicit x \<and> opLanguage x = L) ops) +
     length (filter (\<lambda>x. isImplicit x \<and> opLanguage x = L) ops)"
  by (induction ops) auto

lemma count_list_map_distinct:
  "distinct (map f xs) \<Longrightarrow> x \<in> set xs \<Longrightarrow> count_list (map f xs) (f x) = 1"
  by (induction xs) (auto simp: count_list_0_iff)

lemma ctx_count_once:
  assumes "distinct (map (sessID \<circ> opSession) ops)" and "x \<in> set ops" and "opLanguage x = L"
  shows "count_list (map (\<lambda>x. \<lparr>ID = sessID (opSession x), Language = L\<rparr>)
           (filter (\<lambda>x. opLanguage x = L) ops)) \<lparr>ID = sessID (opSession x), Language = L\<rparr> = 1"
proof -
  let ?f = "\<lambda>x. \<lparr>ID = sessID (opSession x), Language = L\<rparr>"
  let ?xs = "filter (\<lambda>x. opLanguage x = L) ops"
  have "distinct (map (sessID \<circ> opSession) ?xs)"
    using assms(1) by (rule distinct_map_filter)
  then have "distinct (map (ID \<circ> ?f) ?xs)" by (simp add: comp_def)
  then have "distinct (map ?f ?xs)"
    by (metis distinct_map map_map) 
  moreover have "x \<in> set ?xs" using assms by simp
  ultimately show ?thesis by (rule count_list_map_distinct)
qed

text \<open>
  C4 (as amended). After any history of successful creations with pairwise distinct session
  ids that holds exactly one implicit default context for language \<open>L\<close>, with a non-empty
  id, \<open>listLanguageContexts L\<close> returns N + 2 entries, N being the number of explicit
  contexts of \<open>L\<close>: every explicit context of \<open>L\<close> once and the default context twice,
  once from the kernel map and once more from the default-language map.
\<close>

theorem listLanguageContexts_default_twice:
  assumes "distinct (map (sessID \<circ> opSession) ops)"
    and "filter (\<lambda>x. isImplicit x \<and> opLanguage x = L) ops = [Implicit L d]"
    and "sessID d \<noteq> []"
  shows "length (listLanguageContexts (runOps ops NewController) L) =
           length (filter (\<lambda>x. \<not> isImplicit x \<and> opLanguage x = L) ops) + 2 \<and>
         count_list (listLanguageContexts (runOps ops NewController) L)
           \<lparr>ID = sessID d, Language = L\<rparr> = 2 \<and>
         (\<forall>x \<in> set ops. \<not> isImplicit x \<and> opLanguage x = L \<longrightarrow>
            count_list (listLanguageContexts (runOps ops NewController) L)
              \<lparr>ID = sessID (opSession x), Language = L\<rparr> = 1)"
proof -
  let ?f = "\<lambda>x. \<lparr>ID = sessID (opSession x), Language = L\<rparr>"
  let ?xs = "filter (\<lambda>x. opLanguage x = L) ops"
  have l: "listLanguageContexts (runOps ops NewController) L = map ?f ?xs @ [\<lparr>ID = sessID d, Language = L\<rparr>]"
    using assms(3) by (simp add: listLanguageContexts_ops [OF assms(1)] assms(2))
  have "Implicit L d \<in> set (filter (\<lambda>x. isImplicit x \<and> opLanguage x = L) ops)"
    by (simp add: assms(2))
  then have din: "Implicit L d \<in> set ops" by simp
  have len: "length (listLanguageContexts (runOps ops NewController) L) =
           length (filter (\<lambda>x. \<not> isImplicit x \<and> opLanguage x = L) ops) + 2"
    by (simp add: l filter_split_length [of L ops] assms(2))
  have cd: "count_list (map ?f ?xs) \<lparr>ID = sessID d, Language = L\<rparr> = 1"
    using ctx_count_once [OF assms(1) din] by simp
  have two: "count_list (listLanguageContexts (runOps ops NewController) L)
           \<lparr>ID = sessID d, Language = L\<rparr> = 2"
    by (simp add: l cd)
  have once: "count_list (listLanguageContexts (runOps ops NewController) L)
              \<lparr>ID = sessID (opSession x), Language = L\<rparr> = 1"
    if "x \<in> set ops" "\<not> isImplicit x" "opLanguage x = L" for x
  proof -
    have "x \<noteq> Implicit L d" using that(2) by auto
    then have "sessID (opSession x) \<noteq> sessID (opSession (Implicit L d))"
      using assms(1) that(1) din by (metis comp_apply distinct_map inj_on_def)
    then show ?thesis
      using ctx_count_once [OF assms(1) that(1) that(3)] by (simp add: l)
  qed
  show ?thesis using len two once by blast
qed

theorem listLanguageContexts_default_twice_witness:
  "distinct (map (sessID \<circ> opSession)
     [Explicit ''python'' \<lparr>sessID = ''s1'', sessKernelID = ''k1''\<rparr>,
      Implicit ''python'' \<lparr>sessID = ''d1'', sessKernelID = ''k2''\<rparr>,
      Explicit ''go'' \<lparr>sessID = ''s2'', sessKernelID = ''k3''\<rparr>]) \<and>
   filter (\<lambda>x. isImplicit x \<and> opLanguage x = ''python'')
     [Explicit ''python'' \<lparr>sessID = ''s1'', sessKernelID = ''k1''\<rparr>,
      Implicit ''python'' \<lparr>sessID = ''d1'', sessKernelID = ''k2''\<rparr>,
      Explicit ''go'' \<lparr>sessID = ''s2'', sessKernelID = ''k3''\<rparr>]
     = [Implicit ''python'' \<lparr>sessID = ''d1'', sessKernelID = ''k2''\<rparr>] \<and>
   length (listLanguageContexts
     (runOps [Explicit ''python'' \<lparr>sessID = ''s1'', sessKernelID = ''k1''\<rparr>,
              Implicit ''python'' \<lparr>sessID = ''d1'', sessKernelID = ''k2''\<rparr>,
              Explicit ''go'' \<lparr>sessID = ''s2'', sessKernelID = ''k3''\<rparr>] NewController)
     ''python'') = 3"
  using listLanguageContexts_default_twice
    [of "[Explicit ''python'' \<lparr>sessID = ''s1'', sessKernelID = ''k1''\<rparr>,
          Implicit ''python'' \<lparr>sessID = ''d1'', sessKernelID = ''k2''\<rparr>,
          Explicit ''go'' \<lparr>sessID = ''s2'', sessKernelID = ''k3''\<rparr>]"
        "''python''" "\<lparr>sessID = ''d1'', sessKernelID = ''k2''\<rparr>"]
  by simp

text \<open>
  The claim as stated (N + 1 entries, each context exactly once) fails for N = 1: one
  explicit Python context and the implicit default give three entries, the default twice.
\<close>

theorem listLanguageContexts_counterexample:
  "listLanguageContexts
     (runOps [Explicit ''python'' \<lparr>sessID = ''s1'', sessKernelID = ''k1''\<rparr>,
              Implicit ''python'' \<lparr>sessID = ''d1'', sessKernelID = ''k2''\<rparr>] NewController)
     ''python''
   = [\<lparr>ID = ''s1'', Language = ''python''\<rparr>, \<lparr>ID = ''d1'', Language = ''python''\<rparr>,
      \<lparr>ID = ''d1'', Language = ''python''\<rparr>] \<and>
   length (listLanguageContexts
     (runOps [Explicit ''python'' \<lparr>sessID = ''s1'', sessKernelID = ''k1''\<rparr>,
              Implicit ''python'' \<lparr>sessID = ''d1'', sessKernelID = ''k2''\<rparr>] NewController)
     ''python'') \<noteq> 1 + 1"
  by (simp add: listLanguageContexts_def kernelContexts_def strAt_def NewController_def
        CreateContext_def createDefaultLanguageContext_def storeJupyterKernel_def)

subsection \<open>Kernel lookup by language\<close>

lemma searchLoop_last:
  "\<forall>e \<in> set specs. fst e = ''python3'' \<or> snd e \<noteq> None \<Longrightarrow>
   searchLoop specs lang kernelName =
     Inr (case filter (specMatches lang) specs of
            [] \<Rightarrow> kernelName
          | e # es \<Rightarrow> fst (last (e # es)))"
proof (induction specs arbitrary: kernelName)
  case Nil
  show ?case by simp
next
  case (Cons a specs)
  obtain name spec where a: "a = (name, spec)" by (cases a)
  have rest: "\<forall>e \<in> set specs. fst e = ''python3'' \<or> snd e \<noteq> None"
    using Cons.prems by simp
  show ?case
  proof (cases "name = ''python3''")
    case True
    then show ?thesis by (simp add: a Cons.IH [OF rest] specMatches_def)
  next
    case False
    then obtain info where spec: "spec = Some info" using Cons.prems a by auto
    show ?thesis
      using False
      by (simp add: a spec Cons.IH [OF rest] specMatches_def split: list.splits)
  qed
qed

lemma searchLoop_panics:
  "\<exists>e \<in> set specs. fst e \<noteq> ''python3'' \<and> snd e = None \<Longrightarrow>
   searchLoop specs lang kernelName = Inl NilPointerDereference"
proof (induction specs arbitrary: kernelName)
  case Nil
  then show ?case by simp
next
  case (Cons a specs)
  obtain name spec where a: "a = (name, spec)" by (cases a)
  show ?case
  proof (cases "name \<noteq> ''python3'' \<and> spec = None")
    case True
    then show ?thesis by (simp add: a)
  next
    case False
    then have "\<exists>e \<in> set specs. fst e \<noteq> ''python3'' \<and> snd e = None"
      using Cons.prems a by auto
    from Cons.IH [OF this] show ?thesis by (auto simp: a split: option.splits)
  qed
qed

text \<open>
  C5 (as amended). For every kernelspecs listing in its iteration order and every target
  language, the lookup returns the name of the last entry, in that order, that is not
  named \<open>python3\<close> and whose language equals the target; it never returns \<open>python3\<close>; it
  fails with the NoKernelSpec error when the listing is empty, when no entry other than
  \<open>python3\<close> matches, or when the selected name is the empty string.  (An entry other than
  \<open>python3\<close> whose spec pointer is nil makes the lookup panic.)
\<close>

theorem searchKernel_last_match:
  "searchKernel (Inr specs) lang =
     (if Kernelspecs specs = [] then Inr (Inl ''no kernel specs found'')
      else if \<exists>e \<in> set (Kernelspecs specs). fst e \<noteq> ''python3'' \<and> snd e = None
      then Inl NilPointerDereference
      else case filter (specMatches lang) (Kernelspecs specs) of
             [] \<Rightarrow> Inr (Inl ''no kernel specs found'')
           | e # es \<Rightarrow>
               if fst (last (e # es)) = [] then Inr (Inl ''no kernel specs found'')
               else Inr (Inr (fst (last (e # es))))) \<and>
   (\<forall>name. searchKernel (Inr specs) lang = Inr (Inr name) \<longrightarrow>
      name \<noteq> ''python3'' \<and>
      (\<exists>info. (name, Some info) \<in> set (Kernelspecs specs) \<and> Spec_Language (Spec info) = lang))"
proof -
  let ?ks = "Kernelspecs specs"
  let ?ms = "filter (specMatches lang) ?ks"
  have eq: "searchKernel (Inr specs) lang =
     (if ?ks = [] then Inr (Inl ''no kernel specs found'')
      else if \<exists>e \<in> set ?ks. fst e \<noteq> ''python3'' \<and> snd e = None
      then Inl NilPointerDereference
      else case ?ms of
             [] \<Rightarrow> Inr (Inl ''no kernel specs found'')
           | e # es \<Rightarrow>
               if fst (last (e # es)) = [] then Inr (Inl ''no kernel specs found'')
               else Inr (Inr (fst (last (e # es)))))"
  proof (cases "\<exists>e \<in> set ?ks. fst e \<noteq> ''python3'' \<and> snd e = None")
    case True
    then have "?ks \<noteq> []" by auto
    then show ?thesis
      using True searchLoop_panics [OF True, of lang "[]"] by (simp add: searchKernel_def)
  next
    case False
    then have all: "\<forall>e \<in> set ?ks. fst e = ''python3'' \<or> snd e \<noteq> None" by auto
    have no: "\<not> (\<exists>e \<in> set ?ks. fst e \<noteq> ''python3'' \<and> snd e = None)" by (rule False)
    have loop: "searchLoop ?ks lang [] =
        Inr (case ?ms of [] \<Rightarrow> [] | e # es \<Rightarrow> fst (last (e # es)))"
      using all by (rule searchLoop_last)
    show ?thesis
    proof (cases ?ms)
      case Nil
      then show ?thesis using all loop by (auto simp: searchKernel_def)
    next
      case (Cons e es)
      then show ?thesis using all loop by (auto simp: searchKernel_def)
    qed
  qed
  have sel: "name \<noteq> ''python3'' \<and>
      (\<exists>info. (name, Some info) \<in> set ?ks \<and> Spec_Language (Spec info) = lang)"
    if res: "searchKernel (Inr specs) lang = Inr (Inr name)" for name
  proof -
    from res eq obtain e es where ms: "?ms = e # es" and name: "name = fst (last (e # es))"
      by (auto split: if_splits list.splits)
    have "last (e # es) \<in> set ?ms" using ms by (metis last_in_set list.distinct(1))
    then have mem: "last (e # es) \<in> set ?ks" and ok: "specMatches lang (last (e # es))"
      by auto
    obtain n p where l: "last (e # es) = (n, p)" by (cases "last (e # es)")
    from ok l obtain info where "n \<noteq> ''python3''" and "p = Some info"
      and "Spec_Language (Spec info) = lang"
      by (auto simp: specMatches_def split: option.splits)
    moreover have "name = n" using name l by simp
    ultimately show ?thesis using mem l by auto
  qed
  show ?thesis using eq sel by blast
qed

text \<open>
  A listing with the stock \<open>python3\<close> kernel, a customised Python kernel and a Java
  kernel: the Python lookup selects the customised kernel, the Go lookup fails.
\<close>

theorem searchKernel_last_match_witness:
  "searchKernel
     (Inr \<lparr>Default = ''python3'',
           Kernelspecs =
             [(''python3'', Some \<lparr>Info_Name = ''python3'',
                 Spec = \<lparr>Spec_DisplayName = ''Python 3'', Spec_Language = ''python''\<rparr>\<rparr>),
              (''python-custom'', Some \<lparr>Info_Name = ''python-custom'',
                 Spec = \<lparr>Spec_DisplayName = ''Python'', Spec_Language = ''python''\<rparr>\<rparr>),
              (''java'', Some \<lparr>Info_Name = ''java'',
                 Spec = \<lparr>Spec_DisplayName = ''Java'', Spec_Language = ''java''\<rparr>\<rparr>)]\<rparr>)
     ''python'' = Inr (Inr ''python-custom'') \<and>
   ''python-custom'' \<noteq> ''python3'' \<and>
   searchKernel
     (Inr \<lparr>Default = ''python3'',
           Kernelspecs =
             [(''python3'', Some \<lparr>Info_Name = ''python3'',
                 Spec = \<lparr>Spec_DisplayName = ''Python 3'', Spec_Language = ''python''\<rparr>\<rparr>),
              (''python-custom'', Some \<lparr>Info_Name = ''python-custom'',
                 Spec = \<lparr>Spec_DisplayName = ''Python'', Spec_Language = ''python''\<rparr>\<rparr>),
              (''java'', Some \<lparr>Info_Name = ''java'',
                 Spec = \<lparr>Spec_DisplayName = ''Java'', Spec_Language = ''java''\<rparr>\<rparr>)]\<rparr>)
     ''go'' = Inr (Inl ''no kernel specs found'')"
proof -
  let ?specs = "\<lparr>Default = ''python3'',
           Kernelspecs =
             [(''python3'', Some \<lparr>Info_Name = ''python3'',
                 Spec = \<lparr>Spec_DisplayName = ''Python 3'', Spec_Language = ''python''\<rparr>\<rparr>),
              (''python-custom'', Some \<lparr>Info_Name = ''python-custom'',
                 Spec = \<lparr>Spec_DisplayName = ''Python'', Spec_Language = ''python''\<rparr>\<rparr>),
              (''java'', Some \<lparr>Info_Name = ''java'',
                 Spec = \<lparr>Spec_DisplayName = ''Java'', Spec_Language = ''java''\<rparr>\<rparr>)]\<rparr>"
  have py: "searchKernel (Inr ?specs) ''python'' = Inr (Inr ''python-custom'')"
    using searchKernel_last_match [of ?specs "''python''"]
    by (simp add: specMatches_def)
  have go: "searchKernel (Inr ?specs) ''go'' = Inr (Inl ''no kernel specs found'')"
    using searchKernel_last_match [of ?specs "''go''"]
    by (simp add: specMatches_def)
  have "''python-custom'' \<noteq> ''python3''"
    using searchKernel_last_match [of ?specs "''python''"] py by blast
  with py go show ?thesis by simp
qed

text \<open>
  The claim as stated (the first matching name) fails when two kernels other than
  \<open>python3\<close> share the language: the loop keeps overwriting its result and returns the
  last one visited.
\<close>

theorem searchKernel_counterexample:
  "searchKernel
     (Inr \<lparr>Default = ''python3'',
           Kernelspecs =
             [(''python-a'', Some \<lparr>Info_Name = ''python-a'',
                 Spec = \<lparr>Spec_DisplayName = ''Python A'', Spec_Language = ''python''\<rparr>\<rparr>),
              (''python-b'', Some \<lparr>Info_Name = ''python-b'',
                 Spec = \<lparr>Spec_DisplayName = ''Python B'', Spec_Language = ''python''\<rparr>\<rparr>)]\<rparr>)
     ''python'' = Inr (Inr ''python-b'') \<and>
   searchKernel_spec
     \<lparr>Default = ''python3'',
      Kernelspecs =
        [(''python-a'', Some \<lparr>Info_Name = ''python-a'',
            Spec = \<lparr>Spec_DisplayName = ''Python A'', Spec_Language = ''python''\<rparr>\<rparr>),
         (''python-b'', Some \<lparr>Info_Name = ''python-b'',
            Spec = \<lparr>Spec_DisplayName = ''Python B'', Spec_Language = ''python''\<rparr>\<rparr>)]\<rparr>
     ''python'' = Inr ''python-a''"
  by (simp add: searchKernel_def searchKernel_spec_def specMatches_def)

subsection \<open>Interrupt\<close>

lemma probeLoop_target:
  "a \<in> set (fst (probeLoop n probe p i)) \<Longrightarrow> signalTarget a = Some q \<Longrightarrow> q = p"
proof (induction n arbitrary: i a)
  case 0
  then show ?case by simp
next
  case (Suc n)
  obtain tr ok where r: "probeLoop n probe p (Suc i) = (tr, ok)"
    by (cases "probeLoop n probe p (Suc i)")
  have ih: "\<And>b. b \<in> set tr \<Longrightarrow> signalTarget b = Some q \<Longrightarrow> q = p"
    using Suc.IH [of _ "Suc i"] r by simp
  from Suc.prems show ?case
    by (auto simp: r split: option.splits if_splits dest: ih)
qed

lemma sigtermPhase_target:
  "a \<in> set (fst (sigtermPhase env p)) \<Longrightarrow> signalTarget a = Some q \<Longrightarrow> q = p"
  by (auto simp: sigtermPhase_def split: option.splits waitOutcome.splits)

lemma sigkillPhase_target:
  assumes "a \<in> set (fst (sigkillPhase env p))" and "signalTarget a = Some q"
  shows "q = p"
proof -
  obtain tr3 ok where l: "probeLoop 3 (probeErr env) p 0 = (tr3, ok)"
    by (cases "probeLoop 3 (probeErr env) p 0")
  have t3: "\<And>b. b \<in> set tr3 \<Longrightarrow> signalTarget b = Some q \<Longrightarrow> q = p"
    using probeLoop_target [of _ 3 "probeErr env" p 0 q] l by simp
  from assms show ?thesis
    unfolding sigkillPhase_def l
    by (auto split: option.splits if_splits bool.splits dest: t3)
qed

lemma killPid_target:
  assumes "a \<in> set (fst (killPid env p))" and "signalTarget a = Some q"
  shows "q = p"
proof -
  obtain tr1 early where s: "sigtermPhase env p = (tr1, early)" by (cases "sigtermPhase env p")
  obtain tr2 r where k: "sigkillPhase env p = (tr2, r)" by (cases "sigkillPhase env p")
  have t1: "\<And>b. b \<in> set tr1 \<Longrightarrow> signalTarget b = Some q \<Longrightarrow> q = p"
    using sigtermPhase_target [of _ env p q] s by simp
  have t2: "\<And>b. b \<in> set tr2 \<Longrightarrow> signalTarget b = Some q \<Longrightarrow> q = p"
    using sigkillPhase_target [of _ env p q] k by simp
  from assms show ?thesis
    unfolding killPid_def s k
    by (auto split: option.splits if_splits bool.splits dest: t1 t2)
qed

lemma probeLoop_step:
  assumes "\<not> confirmsExit (probe i)"
  shows "probeLoop (Suc n) probe p i =
       (Kill p SIGNULL # Sleep 50 # fst (probeLoop n probe p (Suc i)),
        snd (probeLoop n probe p (Suc i)))"
proof (cases "probe i")
  case None
  then show ?thesis by (simp add: case_prod_unfold)
next
  case (Some err)
  then have "\<not> (Contains err ''already finished'' \<or> Contains err ''no such process'')"
    using assms by (simp add: confirmsExit_def)
  then show ?thesis using Some by (simp add: case_prod_unfold)
qed

lemma probeLoop_stop:
  assumes "confirmsExit (probe i)"
  shows "probeLoop (Suc n) probe p i = ([Kill p SIGNULL], True)"
proof (cases "probe i")
  case None
  then show ?thesis using assms by (simp add: confirmsExit_def)
next
  case (Some err)
  then have "Contains err ''already finished'' \<or> Contains err ''no such process''"
    using assms by (simp add: confirmsExit_def)
  then show ?thesis using Some by simp
qed

lemma probeLoop_unconfirmed:
  "\<forall>j<n. \<not> confirmsExit (probe (k + j)) \<Longrightarrow>
     probeLoop n probe p k = (probeRounds n p, False)"
proof (induction n arbitrary: k)
  case 0
  show ?case by (simp add: probeRounds_def)
next
  case (Suc n)
  have first: "\<not> confirmsExit (probe k)" using Suc.prems by force
  have "\<forall>j<n. \<not> confirmsExit (probe (Suc k + j))"
  proof (intro allI impI)
    fix j assume "j < n"
    then have "\<not> confirmsExit (probe (k + Suc j))" using Suc.prems by blast
    then show "\<not> confirmsExit (probe (Suc k + j))" by simp
  qed
  then have "probeLoop n probe p (Suc k) = (probeRounds n p, False)" by (rule Suc.IH)
  then show ?case by (simp add: probeLoop_step [of probe k, OF first] probeRounds_def del: probeLoop.simps)
qed

lemma probeLoop_confirmed:
  "i < n \<Longrightarrow> confirmsExit (probe (k + i)) \<Longrightarrow> \<forall>j<i. \<not> confirmsExit (probe (k + j)) \<Longrightarrow>
     probeLoop n probe p k = (probeRounds i p @ [Kill p SIGNULL], True)"
proof (induction n arbitrary: i k)
  case 0
  then show ?case by simp
next
  case (Suc n)
  show ?case
  proof (cases i)
    case 0
    then have "confirmsExit (probe k)" using Suc.prems(2) by simp
    then have "probeLoop (Suc n) probe p k = ([Kill p SIGNULL], True)" by (rule probeLoop_stop)
    then show ?thesis using 0 by (simp add: probeRounds_def)
  next
    case (Suc i')
    have first: "\<not> confirmsExit (probe k)" using Suc.prems(3) Suc by force
    have lt: "i' < n" using Suc.prems(1) Suc by simp
    have hit: "confirmsExit (probe (Suc k + i'))" using Suc.prems(2) Suc by simp
    have "\<forall>j<i'. \<not> confirmsExit (probe (Suc k + j))"
    proof (intro allI impI)
      fix j assume "j < i'"
      then have "Suc j < i" using Suc by simp
      then have "\<not> confirmsExit (probe (k + Suc j))" using Suc.prems(3) by blast
      then show "\<not> confirmsExit (probe (Suc k + j))" by simp
    qed
    from Suc.IH [OF lt hit this]
    have "probeLoop n probe p (Suc k) = (probeRounds i' p @ [Kill p SIGNULL], True)" .
    then show ?thesis by (simp add: probeLoop_step [of probe k, OF first] Suc probeRounds_def del: probeLoop.simps)
  qed
qed

lemma sigkillPhase_cases:
  "(\<forall>err. sigkillErr env = Some err \<and> Contains err ''already finished'' \<longrightarrow>
      sigkillPhase env p = ([Kill p SIGKILL], None)) \<and>
   (\<forall>err. sigkillErr env = Some err \<and> \<not> Contains err ''already finished'' \<longrightarrow>
      sigkillPhase env p = ([Kill p SIGKILL], Some (KillFailed p err))) \<and>
   (\<forall>i<3. sigkillErr env = None \<and> confirmsExit (probeErr env i) \<and>
           (\<forall>j<i. \<not> confirmsExit (probeErr env j)) \<longrightarrow>
      sigkillPhase env p = (Kill p SIGKILL # probeRounds i p @ [Kill p SIGNULL], None)) \<and>
   (sigkillErr env = None \<and> (\<forall>j<3. \<not> confirmsExit (probeErr env j)) \<longrightarrow>
      sigkillPhase env p = (Kill p SIGKILL # probeRounds 3 p, Some (MightStillBeRunning p)))"
proof (intro conjI allI impI)
  fix err assume "sigkillErr env = Some err \<and> Contains err ''already finished''"
  then show "sigkillPhase env p = ([Kill p SIGKILL], None)"
    by (simp add: sigkillPhase_def)
next
  fix err assume "sigkillErr env = Some err \<and> \<not> Contains err ''already finished''"
  then show "sigkillPhase env p = ([Kill p SIGKILL], Some (KillFailed p err))"
    by (simp add: sigkillPhase_def)
next
  fix i :: nat
  assume i: "i < 3"
    and h: "sigkillErr env = None \<and> confirmsExit (probeErr env i) \<and>
            (\<forall>j<i. \<not> confirmsExit (probeErr env j))"
  have "probeLoop 3 (probeErr env) p 0 = (probeRounds i p @ [Kill p SIGNULL], True)"
    using probeLoop_confirmed [of i 3 "probeErr env" 0 p] i h by simp
  then show "sigkillPhase env p = (Kill p SIGKILL # probeRounds i p @ [Kill p SIGNULL], None)"
    using h by (simp add: sigkillPhase_def)
next
  assume h: "sigkillErr env = None \<and> (\<forall>j<3. \<not> confirmsExit (probeErr env j))"
  have "probeLoop 3 (probeErr env) p 0 = (probeRounds 3 p, False)"
    using probeLoop_unconfirmed [of 3 "probeErr env" 0 p] h by simp
  then show "sigkillPhase env p = (Kill p SIGKILL # probeRounds 3 p, Some (MightStillBeRunning p))"
    using h by (simp add: sigkillPhase_def)
qed

lemma killPid_cases:
  "(\<forall>err. findProcessErr env = Some err \<longrightarrow>
      killPid env p = ([], Some (FindProcessFailed err))) \<and>
   (\<forall>err. findProcessErr env = None \<and> sigtermErr env = Some err \<and>
          Contains err ''already finished'' \<longrightarrow>
      killPid env p = ([Kill p SIGTERM], None)) \<and>
   (\<forall>err. findProcessErr env = None \<and> sigtermErr env = Some err \<and>
          \<not> Contains err ''already finished'' \<longrightarrow>
      killPid env p = (Kill p SIGTERM # fst (sigkillPhase env p), snd (sigkillPhase env p))) \<and>
   (findProcessErr env = None \<and> sigtermErr env = None \<and> waitOutcome env = Waited None \<longrightarrow>
      killPid env p = ([Kill p SIGTERM, WaitUpTo p 3000], None)) \<and>
   (findProcessErr env = None \<and> sigtermErr env = None \<and> waitOutcome env \<noteq> Waited None \<longrightarrow>
      killPid env p =
        (Kill p SIGTERM # WaitUpTo p 3000 # fst (sigkillPhase env p),
         snd (sigkillPhase env p)))"
  by (auto simp: killPid_def sigtermPhase_def case_prod_unfold
        split: option.splits waitOutcome.splits)

text \<open>
  C6 (the code departs from the claim in whom it signals).  \<open>Interrupt\<close> sends a Jupyter
  interrupt to the kernel when the id names a kernel context, runs \<open>killPid\<close> on the
  command's pid when it names a command context, and fails with NoSuchSession otherwise.
  \<open>killPid\<close>, in every answer of the operating system: it fails when the process cannot
  be found; it sends SIGTERM and returns nil when the answer says the process already
  finished, or when the signal is delivered and the wait returns without error within
  3 seconds; otherwise (the wait timed out or failed, or SIGTERM failed for another
  reason) it sends SIGKILL, returning nil when that answers \<open>already finished\<close> and the
  kill error on any other failure; after a delivered SIGKILL it probes with signal 0 at
  most three times, 50 ms of sleep after each probe that does not confirm the exit,
  returns nil at the first probe that confirms it, and reports that the process might
  still be running when none of the three does.  Every signal of \<open>killPid\<close> is addressed
  to the process \<open>pid\<close> alone, where the claim says the command's process group and the
  signal relay of the command runner addresses the group, \<open>kill(-pid, sig)\<close>.
\<close>

theorem Interrupt_dispatch_and_kill:
  "(\<forall>kern. getJupyterKernel c sessionID = Some kern \<longrightarrow>
      Interrupt c env sessionID =
        ([JupyterInterrupt (kernelID kern)], map_option InterruptFailed (interruptErr env))) \<and>
   (\<forall>kern. getJupyterKernel c sessionID = None \<and> getCommandKernel c sessionID = Some kern \<longrightarrow>
      Interrupt c env sessionID = killPid env (pid kern)) \<and>
   (getJupyterKernel c sessionID = None \<and> getCommandKernel c sessionID = None \<longrightarrow>
      Interrupt c env sessionID = ([], Some NoSuchSession)) \<and>
   (\<forall>a \<in> set (fst (killPid env p)). \<forall>q. signalTarget a = Some q \<longrightarrow> q = p) \<and>
   (\<forall>sig. sig \<noteq> SIGCHLD \<and> sig \<noteq> SIGURG \<longrightarrow> relaySignal p sig = [Kill (- p) sig]) \<and>
   (\<forall>err. findProcessErr env = Some err \<longrightarrow>
      killPid env p = ([], Some (FindProcessFailed err))) \<and>
   (\<forall>err. findProcessErr env = None \<and> sigtermErr env = Some err \<and>
          Contains err ''already finished'' \<longrightarrow>
      killPid env p = ([Kill p SIGTERM], None)) \<and>
   (\<forall>err. findProcessErr env = None \<and> sigtermErr env = Some err \<and>
          \<not> Contains err ''already finished'' \<longrightarrow>
      killPid env p = (Kill p SIGTERM # fst (sigkillPhase env p), snd (sigkillPhase env p))) \<and>
   (findProcessErr env = None \<and> sigtermErr env = None \<and> waitOutcome env = Waited None \<longrightarrow>
      killPid env p = ([Kill p SIGTERM, WaitUpTo p 3000], None)) \<and>
   (findProcessErr env = None \<and> sigtermErr env = None \<and> waitOutcome env \<noteq> Waited None \<longrightarrow>
      killPid env p =
        (Kill p SIGTERM # WaitUpTo p 3000 # fst (sigkillPhase env p),
         snd (sigkillPhase env p))) \<and>
   (\<forall>err. sigkillErr env = Some err \<and> Contains err ''already finished'' \<longrightarrow>
      sigkillPhase env p = ([Kill p SIGKILL], None)) \<and>
   (\<forall>err. sigkillErr env = Some err \<and> \<not> Contains err ''already finished'' \<longrightarrow>
      sigkillPhase env p = ([Kill p SIGKILL], Some (KillFailed p err))) \<and>
   (\<forall>i<3. sigkillErr env = None \<and> confirmsExit (probeErr env i) \<and>
           (\<forall>j<i. \<not> confirmsExit (probeErr env j)) \<longrightarrow>
      sigkillPhase env p = (Kill p SIGKILL # probeRounds i p @ [Kill p SIGNULL], None)) \<and>
   (sigkillErr env = None \<and> (\<forall>j<3. \<not> confirmsExit (probeErr env j)) \<longrightarrow>
      sigkillPhase env p = (Kill p SIGKILL # probeRounds 3 p, Some (MightStillBeRunning p)))"
proof -
  have d1: "\<forall>kern. getJupyterKernel c sessionID = Some kern \<longrightarrow>
      Interrupt c env sessionID =
        ([JupyterInterrupt (kernelID kern)], map_option InterruptFailed (interruptErr env))"
    by (simp add: Interrupt_def)
  have d2: "\<forall>kern. getJupyterKernel c sessionID = None \<and>
      getCommandKernel c sessionID = Some kern \<longrightarrow>
      Interrupt c env sessionID = killPid env (pid kern)"
    by (simp add: Interrupt_def)
  have d3: "getJupyterKernel c sessionID = None \<and> getCommandKernel c sessionID = None \<longrightarrow>
      Interrupt c env sessionID = ([], Some NoSuchSession)"
    by (simp add: Interrupt_def)
  have t: "\<forall>a \<in> set (fst (killPid env p)). \<forall>q. signalTarget a = Some q \<longrightarrow> q = p"
    using killPid_target [of _ env p] by blast
  have r: "\<forall>sig. sig \<noteq> SIGCHLD \<and> sig \<noteq> SIGURG \<longrightarrow> relaySignal p sig = [Kill (- p) sig]"
    by (simp add: relaySignal_def)
  note k = killPid_cases [of env p]
  note s = sigkillPhase_cases [of env p]
  show ?thesis
    by (rule conjI [OF d1 conjI [OF d2 conjI [OF d3 conjI [OF t conjI [OF r
          conjI [OF conjunct1 [OF k] conjI [OF conjunct1 [OF conjunct2 [OF k]]
          conjI [OF conjunct1 [OF conjunct2 [OF conjunct2 [OF k]]]
          conjI [OF conjunct1 [OF conjunct2 [OF conjunct2 [OF conjunct2 [OF k]]]]
          conjI [OF conjunct2 [OF conjunct2 [OF conjunct2 [OF conjunct2 [OF k]]]] s]]]]]]]]]])
qed

lemma demoController_lookups:
  "getJupyterKernel demoController ''j1'' = Some \<lparr>kernelID = ''k1'', language = ''python''\<rparr>"
  "getJupyterKernel demoController ''s1'' = None"
  "getCommandKernel demoController ''s1'' =
     Some \<lparr>pid = 42, stdoutPath = ''/tmp/s1.stdout'', stderrPath = ''/tmp/s1.stderr'',
           startedAt = 5, finishedAt = None, exitCode = None, errMsg = [], running = True,
           isBackground = False, content = ''sleep 100; true''\<rparr>"
  "getJupyterKernel demoController ''zz'' = None"
  "getCommandKernel demoController ''zz'' = None"
  by (simp_all add: demoController_def getJupyterKernel_def getCommandKernel_def ptrAt_def
        storeCommandKernel_def storeJupyterKernel_def NewController_def)

lemma confirmsExit_demo:
  "confirmsExit (Some ''os: process already finished'')" "\<not> confirmsExit None"
  by (simp_all add: confirmsExit_def)

text \<open>
  The command \<open>s1\<close> is \<open>bash -c\<close> of \<open>sleep 100; true\<close> with pid 42: the shell is the
  leader of its process group and \<open>sleep\<close> is its child in that group.  When the shell
  ignores SIGTERM and still answers every probe, every signal of the interrupt goes to
  process 42 and none to the group \<open>- 42\<close>, which the relay would address, so \<open>sleep\<close>
  is never signalled; when the second probe reports the exit, the interrupt ends there
  without error.  The kernel context \<open>j1\<close>
  gets a Jupyter interrupt, and the unknown id \<open>zz\<close> the NoSuchSession error.
\<close>

theorem Interrupt_dispatch_and_kill_witness:
  "Interrupt demoController stubbornEnv ''j1'' = ([JupyterInterrupt ''k1''], None) \<and>
   Interrupt demoController stubbornEnv ''s1'' =
     ([Kill 42 SIGTERM, WaitUpTo 42 3000, Kill 42 SIGKILL,
       Kill 42 SIGNULL, Sleep 50, Kill 42 SIGNULL, Sleep 50, Kill 42 SIGNULL, Sleep 50],
      Some (MightStillBeRunning 42)) \<and>
   Interrupt demoController lingeringEnv ''s1'' =
     ([Kill 42 SIGTERM, WaitUpTo 42 3000, Kill 42 SIGKILL,
       Kill 42 SIGNULL, Sleep 50, Kill 42 SIGNULL], None) \<and>
   Interrupt demoController stubbornEnv ''zz'' = ([], Some NoSuchSession) \<and>
   relaySignal 42 SIGTERM = [Kill (- 42) SIGTERM] \<and>
   Kill (- 42) SIGTERM \<notin> set (fst (Interrupt demoController stubbornEnv ''s1'')) \<and>
   Kill (- 42) SIGKILL \<notin> set (fst (Interrupt demoController stubbornEnv ''s1''))"
proof -
  note st = Interrupt_dispatch_and_kill [of demoController "''s1''" stubbornEnv 42]
  note li = Interrupt_dispatch_and_kill [of demoController "''s1''" lingeringEnv 42]
  have j: "Interrupt demoController stubbornEnv ''j1'' = ([JupyterInterrupt ''k1''], None)"
    using Interrupt_dispatch_and_kill [of demoController "''j1''" stubbornEnv 42]
    by (simp add: demoController_lookups stubbornEnv_def)
  have p1: "sigkillPhase stubbornEnv 42 =
      (Kill 42 SIGKILL # probeRounds 3 42, Some (MightStillBeRunning 42))"
    using st by (simp add: stubbornEnv_def confirmsExit_demo)
  have k1: "killPid stubbornEnv 42 =
      (Kill 42 SIGTERM # WaitUpTo 42 3000 # fst (sigkillPhase stubbornEnv 42),
       snd (sigkillPhase stubbornEnv 42))"
    using st by (simp add: stubbornEnv_def)
  have s1: "Interrupt demoController stubbornEnv ''s1'' = killPid stubbornEnv 42"
    using st by (simp add: demoController_lookups)
  have r1: "Interrupt demoController stubbornEnv ''s1'' =
     ([Kill 42 SIGTERM, WaitUpTo 42 3000, Kill 42 SIGKILL,
       Kill 42 SIGNULL, Sleep 50, Kill 42 SIGNULL, Sleep 50, Kill 42 SIGNULL, Sleep 50],
      Some (MightStillBeRunning 42))"
    by (simp add: s1 k1 p1 probeRounds_def numeral_3_eq_3)
  have hit: "(1::nat) < 3 \<and> sigkillErr lingeringEnv = None \<and>
      confirmsExit (probeErr lingeringEnv 1) \<and>
      (\<forall>j<1. \<not> confirmsExit (probeErr lingeringEnv j))"
    by (simp add: lingeringEnv_def confirmsExit_demo)
  have p2: "sigkillPhase lingeringEnv 42 =
      (Kill 42 SIGKILL # probeRounds 1 42 @ [Kill 42 SIGNULL], None)"
    using li hit by blast
  have k2: "killPid lingeringEnv 42 =
      (Kill 42 SIGTERM # WaitUpTo 42 3000 # fst (sigkillPhase lingeringEnv 42),
       snd (sigkillPhase lingeringEnv 42))"
    using li by (simp add: lingeringEnv_def)
  have s2: "Interrupt demoController lingeringEnv ''s1'' = killPid lingeringEnv 42"
    using li by (simp add: demoController_lookups)
  have r2: "Interrupt demoController lingeringEnv ''s1'' =
     ([Kill 42 SIGTERM, WaitUpTo 42 3000, Kill 42 SIGKILL,
       Kill 42 SIGNULL, Sleep 50, Kill 42 SIGNULL], None)"
    by (simp add: s2 k2 p2 probeRounds_def)
  have z: "Interrupt demoController stubbornEnv ''zz'' = ([], Some NoSuchSession)"
    using Interrupt_dispatch_and_kill [of demoController "''zz''" stubbornEnv 42]
    by (simp add: demoController_lookups)
  have rel: "relaySignal 42 SIGTERM = [Kill (- 42) SIGTERM]"
    using st by simp
  have n1: "Kill (- 42) SIGTERM \<notin> set (fst (Interrupt demoController stubbornEnv ''s1''))"
    by (simp add: r1)
  have n2: "Kill (- 42) SIGKILL \<notin> set (fst (Interrupt demoController stubbornEnv ''s1''))"
    by (simp add: r1)
  show ?thesis
    by (rule conjI [OF j conjI [OF r1 conjI [OF r2 conjI [OF z conjI [OF rel conjI [OF n1 n2]]]]]])
qed

subsection \<open>String functions\<close>

lemma spaceWidth_pattern: "w \<in> set unicodeSpaces \<Longrightarrow> spaceWidth (w @ s) = length w"
  apply (simp only: unicodeSpaces_def list.set insert_iff empty_iff)
  apply (elim disjE)
  apply (simp_all add: spaceWidth_def unicodeSpaces_def)
  done

lemma spaceWidth_take:
  "0 < spaceWidth s \<Longrightarrow> take (spaceWidth s) s \<in> set unicodeSpaces"
  by (auto simp: spaceWidth_def split: if_splits)

lemma unicodeSpaces_nonempty: "w \<in> set unicodeSpaces \<Longrightarrow> w \<noteq> []"
  by (auto simp: unicodeSpaces_def)

lemma length_spaceMarks [simp]: "length (spaceMarks k s) = length s"
  by (induction s arbitrary: k) auto

lemma blank_head:
  assumes "blank (c # cs)"
  shows "0 < spaceWidth (c # cs) \<and> blank (drop (spaceWidth (c # cs)) (c # cs))"
  using assms
proof (induction "c # cs" rule: blank.induct)
  case (space w s)
  show ?case
  proof (cases "w = []")
    case True
    then show ?thesis using space.hyps(1) unicodeSpaces_nonempty by blast
  next
    case False
    have "spaceWidth (w @ s) = length w" using space.hyps(1) by (rule spaceWidth_pattern)
    then show ?thesis using False space.hyps(2,4) by (metis append_eq_conv_conj length_greater_0_conv)
  qed
qed

lemma blank_step:
  "0 < spaceWidth s \<Longrightarrow> blank (drop (spaceWidth s) s) \<Longrightarrow> blank s"
  using blank.space [OF spaceWidth_take, of s "drop (spaceWidth s) s"] by simp

lemma spaceMarks_blank: "list_all id (spaceMarks k s) \<longleftrightarrow> blank (drop k s)"
proof (induction s arbitrary: k)
  case Nil
  show ?case by (simp add: blank.empty)
next
  case (Cons c cs)
  show ?case
  proof (cases "0 < k")
    case True
    then obtain j where k: "k = Suc j" by (cases k) auto
    show ?thesis using Cons.IH [of j] by (simp add: k)
  next
    case False
    then have k: "k = 0" by simp
    show ?thesis
    proof (cases "0 < spaceWidth (c # cs)")
      case True
      then obtain j where w: "spaceWidth (c # cs) = Suc j" by (cases "spaceWidth (c # cs)") auto
      have "blank (c # cs) \<longleftrightarrow> blank (drop (spaceWidth (c # cs)) (c # cs))"
        using True blank_head blank_step by blast
      then show ?thesis using Cons.IH [of j] by (simp add: k w)
    next
      case False
      then have "\<not> blank (c # cs)" by (auto dest: blank_head)
      then show ?thesis using False by (simp add: k)
    qed
  qed
qed

lemma splitOn_all_empty:
  "filter (\<lambda>t. t \<noteq> []) (splitOn P xs) = [] \<longleftrightarrow> (\<forall>x \<in> set xs. P x)"
proof (induction xs)
  case Nil
  show ?case by simp
next
  case (Cons x xs)
  obtain m ms where s: "splitOn P xs = m # ms" by (cases "splitOn P xs") auto
  show ?case using Cons.IH by (auto simp: s)
qed

lemma Fields_empty_iff: "Fields s = [] \<longleftrightarrow> blank s"
proof -
  let ?zs = "zip s (spaceMarks 0 s)"
  have m: "map snd ?zs = spaceMarks 0 s"
    by (rule map_snd_zip) simp
  have "Fields s = [] \<longleftrightarrow> filter (\<lambda>t. t \<noteq> []) (splitOn snd ?zs) = []"
    by (simp only: Fields_def map_is_Nil_conv)
  also have "\<dots> \<longleftrightarrow> (\<forall>z \<in> set ?zs. snd z)"
    by (rule splitOn_all_empty)
  also have "\<dots> \<longleftrightarrow> (\<forall>b \<in> set (map snd ?zs). b)"
    by (simp only: set_map ball_simps)
  also have "\<dots> \<longleftrightarrow> list_all id (spaceMarks 0 s)"
    by (simp add: m list_all_iff)
  also have "\<dots> \<longleftrightarrow> blank s"
    by (simp add: spaceMarks_blank)
  finally show ?thesis .
qed

subsection \<open>The SQL executor\<close>

text \<open>
  C10 (holds once the database is initialised and answers the ping).  A code without any
  non-white-space character (empty, or white space only) has no token, \<open>getQueryType\<close>
  indexes the empty token list and panics, and \<open>getQueryType\<close> returns a token type
  exactly when the code has at least one token.  \<open>runSQL\<close> on such a code: when the
  database is initialised and answers the ping, it ends in that panic after the init
  hook, returning no error value; when the initialisation fails, or when it succeeds and
  the ping fails, it reports the error through the error hook and returns it, and the
  classifier is not reached.
\<close>

theorem getQueryType_panics_on_blank:
  "(blank code \<longleftrightarrow> Fields code = []) \<and>
   (blank code \<longleftrightarrow> getQueryType unicodeUpper code = Inl IndexOutOfRange) \<and>
   (blank code \<and> initErr env = None \<and> pingErr env = None \<longrightarrow>
      runSQL env Marshal sprint unicodeUpper code =
        ([OnExecuteInit (sessionUUID env)], Inl IndexOutOfRange)) \<and>
   (\<forall>firstWord ws. Fields code = firstWord # ws \<longrightarrow>
      getQueryType unicodeUpper code = Inr (ToUpper unicodeUpper firstWord)) \<and>
   (\<forall>err. initErr env = Some err \<longrightarrow>
      runSQL env Marshal sprint unicodeUpper code =
        ([OnExecuteInit (sessionUUID env), OnExecuteError ''DBInitError'' err],
         Inr (Some err))) \<and>
   (\<forall>err. initErr env = None \<and> pingErr env = Some err \<longrightarrow>
      runSQL env Marshal sprint unicodeUpper code =
        ([OnExecuteInit (sessionUUID env), OnExecuteError ''DBPingError'' err],
         Inr (Some err))) \<and>
   (runSQL env Marshal sprint unicodeUpper code =
        ([OnExecuteInit (sessionUUID env)], Inl IndexOutOfRange) \<longleftrightarrow>
      blank code \<and> initErr env = None \<and> pingErr env = None)"
proof -
  have a: "blank code \<longleftrightarrow> Fields code = []" by (simp add: Fields_empty_iff)
  have b: "blank code \<longleftrightarrow> getQueryType unicodeUpper code = Inl IndexOutOfRange"
    by (simp add: a getQueryType_def split: list.splits)
  have c: "blank code \<and> initErr env = None \<and> pingErr env = None \<longrightarrow>
      runSQL env Marshal sprint unicodeUpper code =
        ([OnExecuteInit (sessionUUID env)], Inl IndexOutOfRange)"
    using b by (simp add: runSQL_def)
  have d: "\<forall>firstWord ws. Fields code = firstWord # ws \<longrightarrow>
      getQueryType unicodeUpper code = Inr (ToUpper unicodeUpper firstWord)"
    by (simp add: getQueryType_def)
  have e: "\<forall>err. initErr env = Some err \<longrightarrow>
      runSQL env Marshal sprint unicodeUpper code =
        ([OnExecuteInit (sessionUUID env), OnExecuteError ''DBInitError'' err],
         Inr (Some err))"
    by (simp add: runSQL_def)
  have f: "\<forall>err. initErr env = None \<and> pingErr env = Some err \<longrightarrow>
      runSQL env Marshal sprint unicodeUpper code =
        ([OnExecuteInit (sessionUUID env), OnExecuteError ''DBPingError'' err],
         Inr (Some err))"
    by (simp add: runSQL_def)
  have g: "runSQL env Marshal sprint unicodeUpper code =
        ([OnExecuteInit (sessionUUID env)], Inl IndexOutOfRange) \<longleftrightarrow>
      blank code \<and> initErr env = None \<and> pingErr env = None"
  proof
    assume r: "runSQL env Marshal sprint unicodeUpper code =
        ([OnExecuteInit (sessionUUID env)], Inl IndexOutOfRange)"
    have i: "initErr env = None"
    proof (cases "initErr env")
      case (Some err)
      then show ?thesis using r e by simp
    qed simp
    have p: "pingErr env = None"
    proof (cases "pingErr env")
      case (Some err)
      then show ?thesis using r f i by simp
    qed simp
    have "getQueryType unicodeUpper code = Inl IndexOutOfRange"
    proof (cases "getQueryType unicodeUpper code")
      case (Inl q)
      then show ?thesis using r i p by (simp add: runSQL_def)
    next
      case (Inr queryType)
      then show ?thesis using r i p by (simp add: runSQL_def split: prod.splits)
    qed
    then show "blank code \<and> initErr env = None \<and> pingErr env = None"
      using b i p by simp
  next
    assume "blank code \<and> initErr env = None \<and> pingErr env = None"
    then show "runSQL env Marshal sprint unicodeUpper code =
        ([OnExecuteInit (sessionUUID env)], Inl IndexOutOfRange)"
      using c by simp
  qed
  show ?thesis
    by (rule conjI [OF a conjI [OF b conjI [OF c conjI [OF d conjI [OF e conjI [OF f g]]]]]])
qed

text \<open>
  The empty code, and a code made of a space, a line feed and a no-break space, panic;
  \<open>select 1\<close> is classified as \<open>SELECT\<close>; with the database down the empty code ends in
  the returned error.
\<close>

theorem getQueryType_panics_on_blank_witness:
  "blank [] \<and>
   runSQL \<lparr>sessionUUID = ''u1'', initErr = None, pingErr = None,
           queryRes = Inl ''unused'', execRes = Inl ''unused'', elapsed = 3\<rparr>
     (\<lambda>j. Inl ''unused'') (\<lambda>v :: string. v) (\<lambda>s. s) []
     = ([OnExecuteInit ''u1''], Inl IndexOutOfRange) \<and>
   blank [CHR 0x20, CHR 0x0A, CHR 0xC2, CHR 0xA0] \<and>
   getQueryType (\<lambda>s. s) [CHR 0x20, CHR 0x0A, CHR 0xC2, CHR 0xA0] = Inl IndexOutOfRange \<and>
   Fields ''select 1'' = [''select'', ''1''] \<and>
   getQueryType (\<lambda>s. s) ''select 1'' = Inr ''SELECT'' \<and>
   initErr downDB = Some ''connection refused'' \<and>
   runSQL downDB compactMarshal sprintString noUnicodeUpper []
     = ([OnExecuteInit ''u1'', OnExecuteError ''DBInitError'' ''connection refused''],
        Inr (Some ''connection refused'')) \<and>
   initErr silentDB = None \<and> pingErr silentDB = Some ''bad connection'' \<and>
   runSQL silentDB compactMarshal sprintString noUnicodeUpper []
     = ([OnExecuteInit ''u1'', OnExecuteError ''DBPingError'' ''bad connection''],
        Inr (Some ''bad connection''))"
proof -
  let ?env = "\<lparr>sessionUUID = ''u1'', initErr = None, pingErr = None,
           queryRes = Inl ''unused'', execRes = Inl ''unused'', elapsed = 3\<rparr>
           :: string sqlEnv"
  have f0: "Fields [] = []" by (simp add: Fields_def)
  have f1: "Fields [CHR 0x20, CHR 0x0A, CHR 0xC2, CHR 0xA0] = []"
    by (simp add: Fields_def spaceWidth_def unicodeSpaces_def)
  have f2: "Fields ''select 1'' = [''select'', ''1'']"
    by (simp add: Fields_def spaceWidth_def unicodeSpaces_def)
  have u: "ToUpper (\<lambda>s. s) ''select'' = ''SELECT''"
    by (simp add: ToUpper_def asciiUpper_def)
  note t0 = getQueryType_panics_on_blank
              [of "[]" "\<lambda>s. s" ?env "\<lambda>j. Inl ''unused''" "\<lambda>v. v"]
  note t1 = getQueryType_panics_on_blank
              [of "[CHR 0x20, CHR 0x0A, CHR 0xC2, CHR 0xA0]" "\<lambda>s. s" ?env
                  "\<lambda>j. Inl ''unused''" "\<lambda>v. v"]
  note t2 = getQueryType_panics_on_blank
              [of "''select 1''" "\<lambda>s. s" ?env "\<lambda>j. Inl ''unused''" "\<lambda>v. v"]
  note t3 = getQueryType_panics_on_blank
              [of "[]" noUnicodeUpper downDB compactMarshal sprintString]
  note t4 = getQueryType_panics_on_blank
              [of "[]" noUnicodeUpper silentDB compactMarshal sprintString]
  have b0: "blank []" using t0 f0 by blast
  have r0: "runSQL ?env (\<lambda>j. Inl ''unused'') (\<lambda>v. v) (\<lambda>s. s) []
      = ([OnExecuteInit ''u1''], Inl IndexOutOfRange)"
    using t0 b0 by simp
  have b1: "blank [CHR 0x20, CHR 0x0A, CHR 0xC2, CHR 0xA0]" using t1 f1 by blast
  have g1: "getQueryType (\<lambda>s. s) [CHR 0x20, CHR 0x0A, CHR 0xC2, CHR 0xA0] = Inl IndexOutOfRange"
    using t1 b1 by blast
  have g2: "getQueryType (\<lambda>s. s) ''select 1'' = Inr ''SELECT''"
    using t2 f2 u by simp
  have i3: "initErr downDB = Some ''connection refused''" and u3: "sessionUUID downDB = ''u1''"
    by (simp_all add: downDB_def)
  have i4: "initErr silentDB = None" and p4: "pingErr silentDB = Some ''bad connection''"
    and u4: "sessionUUID silentDB = ''u1''"
    by (simp_all add: silentDB_def)
  have r3: "runSQL downDB compactMarshal sprintString noUnicodeUpper []
     = ([OnExecuteInit ''u1'', OnExecuteError ''DBInitError'' ''connection refused''],
        Inr (Some ''connection refused''))"
    using t3 i3 u3 by simp
  have r4: "runSQL silentDB compactMarshal sprintString noUnicodeUpper []
     = ([OnExecuteInit ''u1'', OnExecuteError ''DBPingError'' ''bad connection''],
        Inr (Some ''bad connection''))"
    using t4 i4 p4 u4 by simp
  show ?thesis
    by (rule conjI [OF b0 conjI [OF r0 conjI [OF b1 conjI [OF g1 conjI [OF f2 conjI [OF g2
          conjI [OF i3 conjI [OF r3 conjI [OF i4 conjI [OF p4 r4]]]]]]]]]])
qed

text \<open>
  C10 as stated, for every request with a blank code, fails when the database is out of
  reach: the empty code is blank, and with the initialisation failing \<open>runSQL\<close> returns
  the error value after the error hook and does not panic; so it does with a database
  that does not answer the ping.
\<close>

theorem runSQL_blank_counterexample:
  "Fields [] = [] \<and>
   getQueryType noUnicodeUpper [] = Inl IndexOutOfRange \<and>
   runSQL downDB compactMarshal sprintString noUnicodeUpper []
     = ([OnExecuteInit ''u1'', OnExecuteError ''DBInitError'' ''connection refused''],
        Inr (Some ''connection refused'')) \<and>
   runSQL silentDB compactMarshal sprintString noUnicodeUpper []
     = ([OnExecuteInit ''u1'', OnExecuteError ''DBPingError'' ''bad connection''],
        Inr (Some ''bad connection''))"
  by (simp add: runSQL_def downDB_def silentDB_def getQueryType_def Fields_def)

lemma scanRows_all_ok:
  "scanRows sprint (map Inr cells) result = Inr (result @ map (map (cellJSON sprint)) cells)"
  by (induction cells arbitrary: result) simp_all

text \<open>
  C7 (as amended). For every SQL execute request whose code has at least one token, with
  the database initialised and answering the ping: the statement is classified by its
  first white-space-delimited token uppercased.  When a \<open>SELECT\<close> query, its column list
  and every row scan succeed, the payload is the object with \<open>columns\<close> and \<open>rows\<close>, nil
  cells as null and all other cells stringified, where an empty column list or an empty
  row list leaves its key out of the object; when any other statement executes without
  error the payload is \<open>{columns: ["affected_rows"], rows: [[N]]}\<close>.  In both cases, once
  the payload is encoded, the hooks called are the init hook, exactly one result hook with
  the map \<open>{"text/plain": json}\<close> and count 1, and then one completion hook with the
  duration, and no error is returned.
\<close>

theorem runSQL_result_delivery:
  assumes "initErr env = None" and "pingErr env = None" and "Fields code = firstWord # ws"
  shows "(ToUpper unicodeUpper firstWord = ''SELECT'' \<longrightarrow>
            (\<forall>rows cols cells bytes.
               queryRes env = Inr rows \<and> columnsRes rows = Inr cols \<and>
               rowScans rows = map Inr cells \<and>
               Marshal (QueryResult_json cols (map (map (cellJSON sprint)) cells) []) = Inr bytes \<longrightarrow>
               runSQL env Marshal sprint unicodeUpper code =
                 ([OnExecuteInit (sessionUUID env),
                   OnExecuteResult [(''text/plain'', bytes)] 1,
                   OnExecuteComplete (elapsed env)], Inr None))) \<and>
         (ToUpper unicodeUpper firstWord \<noteq> ''SELECT'' \<longrightarrow>
            (\<forall>affected bytes.
               execRes env = Inr affected \<and>
               Marshal (QueryResult_json [''affected_rows''] [[JNumber affected]] []) = Inr bytes \<longrightarrow>
               runSQL env Marshal sprint unicodeUpper code =
                 ([OnExecuteInit (sessionUUID env),
                   OnExecuteResult [(''text/plain'', bytes)] 1,
                   OnExecuteComplete (elapsed env)], Inr None))) \<and>
         (\<forall>cols rows. cols \<noteq> [] \<and> rows \<noteq> [] \<longrightarrow>
            QueryResult_json cols rows [] =
              JObject [(''columns'', JArray (map JString cols)),
                       (''rows'', JArray (map JArray rows))]) \<and>
         (\<forall>cols. cols \<noteq> [] \<longrightarrow>
            QueryResult_json cols [] [] = JObject [(''columns'', JArray (map JString cols))]) \<and>
         (\<forall>n. QueryResult_json [''affected_rows''] [[JNumber n]] [] =
              JObject [(''columns'', JArray [JString ''affected_rows'']),
                       (''rows'', JArray [JArray [JNumber n]])]) \<and>
         cellJSON sprint None = JNull \<and> (\<forall>v. cellJSON sprint (Some v) = JString (sprint v))"
proof -
  have q: "getQueryType unicodeUpper code = Inr (ToUpper unicodeUpper firstWord)"
    using assms(3) by (simp add: getQueryType_def)
  have sel: "runSQL env Marshal sprint unicodeUpper code =
                 ([OnExecuteInit (sessionUUID env),
                   OnExecuteResult [(''text/plain'', bytes)] 1,
                   OnExecuteComplete (elapsed env)], Inr None)"
    if "ToUpper unicodeUpper firstWord = ''SELECT''" and "queryRes env = Inr rows"
      and "columnsRes rows = Inr cols" and "rowScans rows = map Inr cells"
      and "Marshal (QueryResult_json cols (map (map (cellJSON sprint)) cells) []) = Inr bytes"
    for rows cols cells bytes
  proof -
    have "executeSelectSQLQuery env Marshal sprint =
        ([OnExecuteResult [(''text/plain'', bytes)] 1, OnExecuteComplete (elapsed env)], None)"
      using that(2-5) by (simp add: executeSelectSQLQuery_def scanRows_all_ok)
    then show ?thesis using assms(1,2) q that(1) by (simp add: runSQL_def)
  qed
  have upd: "runSQL env Marshal sprint unicodeUpper code =
                 ([OnExecuteInit (sessionUUID env),
                   OnExecuteResult [(''text/plain'', bytes)] 1,
                   OnExecuteComplete (elapsed env)], Inr None)"
    if "ToUpper unicodeUpper firstWord \<noteq> ''SELECT''" and "execRes env = Inr affected"
      and "Marshal (QueryResult_json [''affected_rows''] [[JNumber affected]] []) = Inr bytes"
    for affected bytes
  proof -
    have "executeUpdateSQLQuery env Marshal =
        ([OnExecuteResult [(''text/plain'', bytes)] 1, OnExecuteComplete (elapsed env)], None)"
      using that(2,3) by (simp add: executeUpdateSQLQuery_def)
    then show ?thesis using assms(1,2) q that(1) by (simp add: runSQL_def)
  qed
  have shape: "(\<forall>cols rows. cols \<noteq> [] \<and> rows \<noteq> [] \<longrightarrow>
            QueryResult_json cols rows [] =
              JObject [(''columns'', JArray (map JString cols)),
                       (''rows'', JArray (map JArray rows))]) \<and>
         (\<forall>cols. cols \<noteq> [] \<longrightarrow>
            QueryResult_json cols [] [] = JObject [(''columns'', JArray (map JString cols))]) \<and>
         (\<forall>n. QueryResult_json [''affected_rows''] [[JNumber n]] [] =
              JObject [(''columns'', JArray [JString ''affected_rows'']),
                       (''rows'', JArray [JArray [JNumber n]])]) \<and>
         cellJSON sprint None = JNull \<and> (\<forall>v. cellJSON sprint (Some v) = JString (sprint v))"
    by (simp add: QueryResult_json_def cellJSON_def)
  have A: "ToUpper unicodeUpper firstWord = ''SELECT'' \<longrightarrow>
            (\<forall>rows cols cells bytes.
               queryRes env = Inr rows \<and> columnsRes rows = Inr cols \<and>
               rowScans rows = map Inr cells \<and>
               Marshal (QueryResult_json cols (map (map (cellJSON sprint)) cells) []) = Inr bytes \<longrightarrow>
               runSQL env Marshal sprint unicodeUpper code =
                 ([OnExecuteInit (sessionUUID env),
                   OnExecuteResult [(''text/plain'', bytes)] 1,
                   OnExecuteComplete (elapsed env)], Inr None))"
    using sel by (intro impI allI) (elim conjE)
  have B: "ToUpper unicodeUpper firstWord \<noteq> ''SELECT'' \<longrightarrow>
            (\<forall>affected bytes.
               execRes env = Inr affected \<and>
               Marshal (QueryResult_json [''affected_rows''] [[JNumber affected]] []) = Inr bytes \<longrightarrow>
               runSQL env Marshal sprint unicodeUpper code =
                 ([OnExecuteInit (sessionUUID env),
                   OnExecuteResult [(''text/plain'', bytes)] 1,
                   OnExecuteComplete (elapsed env)], Inr None))"
    using upd by (intro impI allI) (elim conjE)
  show ?thesis by (rule conjI [OF A conjI [OF B shape]])
qed

lemma showNat_digit: "n < 10 \<Longrightarrow> showNat n = [digitChar n]"
  by (subst showNat.simps) simp

lemma demo_tokens:
  "Fields ''SELECT 1'' = [''SELECT'', ''1'']"
  "Fields ''delete from t'' = [''delete'', ''from'', ''t'']"
  "Fields ''select id from t'' = [''select'', ''id'', ''from'', ''t'']"
  "Fields ''select * from x'' = [''select'', ''*'', ''from'', ''x'']"
  by (simp_all add: Fields_def spaceWidth_def unicodeSpaces_def)

lemma demo_upper:
  "ToUpper noUnicodeUpper ''SELECT'' = ''SELECT''"
  "ToUpper noUnicodeUpper ''select'' = ''SELECT''"
  "ToUpper noUnicodeUpper ''delete'' = ''DELETE''"
  by (simp_all add: ToUpper_def asciiUpper_def)

text \<open>
  \<open>SELECT 1\<close> on a database that answers with one row, and a \<open>delete\<close> that affects
  three rows.
\<close>

theorem runSQL_result_delivery_witness:
  \<open>initErr oneRowDB = None \<and> pingErr oneRowDB = None \<and>
   Fields ''SELECT 1'' = [''SELECT'', ''1''] \<and>
   runSQL oneRowDB compactMarshal sprintString noUnicodeUpper ''SELECT 1'' =
     ([OnExecuteInit ''u1'',
       OnExecuteResult [(''text/plain'', ''{"columns":["1"],"rows":[["1"]]}'')] 1,
       OnExecuteComplete 7], Inr None) \<and>
   Fields ''delete from t'' = [''delete'', ''from'', ''t''] \<and>
   runSQL oneRowDB compactMarshal sprintString noUnicodeUpper ''delete from t'' =
     ([OnExecuteInit ''u1'',
       OnExecuteResult [(''text/plain'', ''{"columns":["affected_rows"],"rows":[[3]]}'')] 1,
       OnExecuteComplete 7], Inr None)\<close>
proof -
  have i: "initErr oneRowDB = None" and p: "pingErr oneRowDB = None"
    by (simp_all add: oneRowDB_def)
  have m1: \<open>compactMarshal
        (QueryResult_json [''1''] (map (map (cellJSON sprintString)) [[Some ''1'']]) []) =
      Inr ''{"columns":["1"],"rows":[["1"]]}''\<close>
    by (simp add: compactMarshal_def QueryResult_json_def cellJSON_def sprintString_def)
  have m2: \<open>compactMarshal (QueryResult_json [''affected_rows''] [[JNumber 3]] []) =
      Inr ''{"columns":["affected_rows"],"rows":[[3]]}''\<close>
    by (simp add: compactMarshal_def QueryResult_json_def showInt_def showNat_digit digitChar_def)
  have q: "queryRes oneRowDB = Inr \<lparr>columnsRes = Inr [''1''], rowScans = [Inr [Some ''1'']]\<rparr>"
    and e: "execRes oneRowDB = Inr 3" and u: "sessionUUID oneRowDB = ''u1''"
    and d: "elapsed oneRowDB = 7"
    by (simp_all add: oneRowDB_def)
  have s: \<open>runSQL oneRowDB compactMarshal sprintString noUnicodeUpper ''SELECT 1'' =
     ([OnExecuteInit ''u1'',
       OnExecuteResult [(''text/plain'', ''{"columns":["1"],"rows":[["1"]]}'')] 1,
       OnExecuteComplete 7], Inr None)\<close>
  proof -
    have pre: "queryRes oneRowDB = Inr \<lparr>columnsRes = Inr [''1''], rowScans = [Inr [Some ''1'']]\<rparr> \<and>
        columnsRes \<lparr>columnsRes = Inr [''1''], rowScans = [Inr [Some ''1'']]\<rparr> = Inr [''1''] \<and>
        rowScans \<lparr>columnsRes = Inr [''1''], rowScans = [Inr [Some ''1'']]\<rparr>
          = map Inr [[Some ''1'']] \<and>
        compactMarshal
          (QueryResult_json [''1''] (map (map (cellJSON sprintString)) [[Some ''1'']]) []) =
        Inr (compactJSON
          (QueryResult_json [''1''] (map (map (cellJSON sprintString)) [[Some ''1'']]) []))"
      using q by (simp add: compactMarshal_def)
    from runSQL_result_delivery
           [OF i p demo_tokens(1), of noUnicodeUpper compactMarshal sprintString,
            THEN conjunct1, rule_format, OF demo_upper(1) pre]
    show ?thesis using m1 u d by (simp add: compactMarshal_def)
  qed
  have x: \<open>runSQL oneRowDB compactMarshal sprintString noUnicodeUpper ''delete from t'' =
     ([OnExecuteInit ''u1'',
       OnExecuteResult [(''text/plain'', ''{"columns":["affected_rows"],"rows":[[3]]}'')] 1,
       OnExecuteComplete 7], Inr None)\<close>
  proof -
    have ne: "ToUpper noUnicodeUpper ''delete'' \<noteq> ''SELECT''"
      by (simp add: demo_upper(3))
    have pre: "execRes oneRowDB = Inr 3 \<and>
        compactMarshal (QueryResult_json [''affected_rows''] [[JNumber 3]] []) =
        Inr (compactJSON (QueryResult_json [''affected_rows''] [[JNumber 3]] []))"
      using e by (simp add: compactMarshal_def)
    from runSQL_result_delivery
           [OF i p demo_tokens(2), of noUnicodeUpper compactMarshal sprintString,
            THEN conjunct2, THEN conjunct1, rule_format, OF ne pre]
    show ?thesis using m2 u d by (simp add: compactMarshal_def)
  qed
  show ?thesis using i p demo_tokens(1,2) s x by (intro conjI)
qed

text \<open>
  The claim as stated, for every request, fails in three ways: a \<open>SELECT\<close> without rows
  is delivered as an object that has no \<open>rows\<close> key; a query the database rejects ends
  in an error hook with no result and no completion hook; and a blank code ends in a
  panic after the init hook.
\<close>

theorem runSQL_counterexample:
  \<open>runSQL noRowDB compactMarshal sprintString noUnicodeUpper ''select id from t'' =
     ([OnExecuteInit ''u1'',
       OnExecuteResult [(''text/plain'', ''{"columns":["id"]}'')] 1,
       OnExecuteComplete 7], Inr None) \<and>
   runSQL failingDB compactMarshal sprintString noUnicodeUpper ''select * from x'' =
     ([OnExecuteInit ''u1'',
       OnExecuteError ''DBQueryError'' ''no such table''], Inr None) \<and>
   runSQL oneRowDB compactMarshal sprintString noUnicodeUpper [CHR 0x20, CHR 0x0A] =
     ([OnExecuteInit ''u1''], Inl IndexOutOfRange)\<close>
proof -
  have a: \<open>runSQL noRowDB compactMarshal sprintString noUnicodeUpper
        ''select id from t'' =
     ([OnExecuteInit ''u1'',
       OnExecuteResult [(''text/plain'', ''{"columns":["id"]}'')] 1,
       OnExecuteComplete 7], Inr None)\<close>
    by (simp add: runSQL_def getQueryType_def demo_tokens demo_upper noRowDB_def
          executeSelectSQLQuery_def compactMarshal_def QueryResult_json_def)
  have b: "runSQL failingDB compactMarshal sprintString noUnicodeUpper ''select * from x'' =
     ([OnExecuteInit ''u1'',
       OnExecuteError ''DBQueryError'' ''no such table''], Inr None)"
    by (simp add: runSQL_def getQueryType_def demo_tokens demo_upper failingDB_def
          executeSelectSQLQuery_def)
  have "Fields [CHR 0x20, CHR 0x0A] = []"
    by (simp add: Fields_def spaceWidth_def unicodeSpaces_def)
  then have c: "runSQL oneRowDB compactMarshal sprintString noUnicodeUpper [CHR 0x20, CHR 0x0A] =
     ([OnExecuteInit ''u1''], Inl IndexOutOfRange)"
    by (simp add: runSQL_def getQueryType_def oneRowDB_def)
  show ?thesis using a b c by (intro conjI)
qed

subsection \<open>The extra-env loader\<close>














text \<open>
  C9. For a session id with no registered kernel context \<open>GetContext\<close> dereferences a nil
  kernel and panics; it returns a context exactly when the id is present in the kernel map
  with a non-nil kernel, and then the context carries the id and the kernel's language.
\<close>

theorem GetContext_panics_without_kernel:
  "(map_of (jupyterClientMap c) session = None \<longrightarrow>
      GetContext c session = Inl NilPointerDereference) \<and>
   (GetContext c session = Inl NilPointerDereference \<longleftrightarrow> getJupyterKernel c session = None) \<and>
   (\<forall>kern. getJupyterKernel c session = Some kern \<longrightarrow>
      GetContext c session = Inr \<lparr>ID = session, Language = language kern\<rparr>)"
  by (auto simp: GetContext_def getJupyterKernel_def ptrAt_def split: option.splits)

theorem GetContext_panics_without_kernel_witness:
  "map_of (jupyterClientMap NewController) ''missing'' = None \<and>
   GetContext NewController ''missing'' = Inl NilPointerDereference \<and>
   getJupyterKernel
     (storeJupyterKernel ''s1'' \<lparr>kernelID = ''k1'', language = ''python''\<rparr> NewController) ''s1''
     = Some \<lparr>kernelID = ''k1'', language = ''python''\<rparr> \<and>
   GetContext
     (storeJupyterKernel ''s1'' \<lparr>kernelID = ''k1'', language = ''python''\<rparr> NewController) ''s1''
     = Inr \<lparr>ID = ''s1'', Language = ''python''\<rparr>"
  using GetContext_panics_without_kernel [of NewController "''missing''"]
    GetContext_panics_without_kernel
      [of "storeJupyterKernel ''s1'' \<lparr>kernelID = ''k1'', language = ''python''\<rparr> NewController"
          "''s1''"]
  by (simp add: NewController_def storeJupyterKernel_def getJupyterKernel_def ptrAt_def)

end
